theory Spec2Isabelle
  imports Complex_Main
begin

section \<open>Striped ring attention (yunchang/ring/stripe\_flash\_attn.py)\<close>

text \<open>
  A shallow embedding of \<^verbatim>\<open>stripe_flash_attn_forward\<close>,
  \<^verbatim>\<open>stripe_flash_attn_backward\<close>, \<^verbatim>\<open>StripeFlashAttnFunc\<close> and the three
  public entry points. One rank of the ring is a function of its own inputs and of the
  data that arrives from the previous peer; the ring of all ranks is the lockstep
  composition of these functions.

  Conventions of the embedding:
  \<^item> a tensor is its element type (dtype), its shape and its elements as a function of
    the index; blocks (Q, K, V, the output and the gradients) are 4-dimensional
    \<open>(batch, seq, heads, dim)\<close>, the kernel's log-sum-exp is 3-dimensional
    \<open>(batch, heads, seq)\<close>;
  \<^item> floating-point numbers are an arbitrary type \<open>'a\<close>; only \<open>+\<close> and \<open>*\<close> on it are
    used, no law of arithmetic is assumed; the scalar hyper-parameters, which are only
    passed on and compared with zero, are reals;
  \<^item> the attention kernels, the rounding of a cast, the content of uninitialised
    memory and the two transcendental functions of the online-softmax merge are
    fields of an environment record \<open>env\<close>;
  \<^item> every function returns a log next to its result: one list of events per ring
    step, so that what was transferred and computed, and when, can be stated;
  \<^item> an exception is a value: \<open>Inl\<close> of an \<open>error\<close>.
\<close>

subsection \<open>Tensors\<close>

datatype dtype = Float16 | BFloat16 | Float32 | Float64

record ('i, 'a) tensor =
  dtype :: dtype
  shape :: 'i
  elems :: "'i \<Rightarrow> 'a"

type_synonym idx4 = "nat \<times> nat \<times> nat \<times> nat"
type_synonym idx3 = "nat \<times> nat \<times> nat"
type_synonym 'a tensor4 = "(idx4, 'a) tensor"
type_synonym 'a tensor3 = "(idx3, 'a) tensor"

text \<open>\<^verbatim>\<open>t[:, 1:]\<close>: the rows of axis 1 from row 1 on.\<close>

definition rows_from1 :: "'a tensor4 \<Rightarrow> 'a tensor4" where
  "rows_from1 t =
     (case shape t of (b, s, h, d) \<Rightarrow>
        t\<lparr>shape := (b, s - 1, h, d),
          elems := (\<lambda>(b', s', h', d'). elems t (b', Suc s', h', d'))\<rparr>)"

text \<open>\<^verbatim>\<open>t[:, :-1]\<close>: the rows of axis 1 without the last one.\<close>

definition rows_to_last :: "'a tensor4 \<Rightarrow> 'a tensor4" where
  "rows_to_last t =
     (case shape t of (b, s, h, d) \<Rightarrow> t\<lparr>shape := (b, s - 1, h, d)\<rparr>)"

text \<open>\<^verbatim>\<open>t[:, :, 1:].contiguous()\<close> on a 3-dimensional tensor.\<close>

definition lse_from1 :: "'a tensor3 \<Rightarrow> 'a tensor3" where
  "lse_from1 t =
     (case shape t of (b, h, s) \<Rightarrow>
        t\<lparr>shape := (b, h, s - 1),
          elems := (\<lambda>(b', h', s'). elems t (b', h', Suc s'))\<rparr>)"

text \<open>
  \<^verbatim>\<open>t.squeeze(dim=-1)\<close> removes the last axis when its size is 1 and is the identity
  otherwise, so its result has 3 or 4 axes; \<^verbatim>\<open>.transpose(1, 2)\<close> swaps axes 1 and 2
  of either.
\<close>

datatype 'a tensor_nd = T3 "'a tensor3" | T4 "'a tensor4"

definition squeeze_last :: "'a tensor4 \<Rightarrow> 'a tensor_nd" where
  "squeeze_last t =
     (case shape t of (b, s, h, d) \<Rightarrow>
        if d = 1
        then T3 \<lparr>dtype = dtype t, shape = (b, s, h),
                 elems = (\<lambda>(b', s', h'). elems t (b', s', h', 0))\<rparr>
        else T4 t)"

fun transpose_1_2 :: "'a tensor_nd \<Rightarrow> 'a tensor_nd" where
  "transpose_1_2 (T3 t) =
     (case shape t of (b, s, h) \<Rightarrow>
        T3 \<lparr>dtype = dtype t, shape = (b, h, s),
            elems = (\<lambda>(b', h', s'). elems t (b', s', h'))\<rparr>)"
| "transpose_1_2 (T4 t) =
     (case shape t of (b, s, h, d) \<Rightarrow>
        T4 \<lparr>dtype = dtype t, shape = (b, h, s, d),
            elems = (\<lambda>(b', h', s', d'). elems t (b', s', h', d'))\<rparr>)"

subsection \<open>The environment: kernels, rounding, uninitialised memory\<close>

datatype FlashAttentionImpl = FA | OtherImpl nat

record 'a fwd_args =
  fa_q :: "'a tensor4"
  fa_k :: "'a tensor4"
  fa_v :: "'a tensor4"
  fa_dropout_p :: real
  fa_softmax_scale :: real
  fa_causal :: bool
  fa_window_size :: "int \<times> int"
  fa_softcap :: real
  fa_alibi_slopes :: "(nat \<times> nat, 'a) tensor option"
  fa_return_softmax :: bool

record 'a bwd_args =
  ba_dout :: "'a tensor4"
  ba_q :: "'a tensor4"
  ba_k :: "'a tensor4"
  ba_v :: "'a tensor4"
  ba_out :: "'a tensor4"
  ba_softmax_lse :: "'a tensor3"
  ba_dq :: "'a tensor4"
  ba_dk :: "'a tensor4"
  ba_dv :: "'a tensor4"
  ba_dropout_p :: real
  ba_softmax_scale :: real
  ba_causal :: bool
  ba_window_size :: "int \<times> int"
  ba_softcap :: real
  ba_alibi_slopes :: "(nat \<times> nat, 'a) tensor option"
  ba_deterministic :: bool

record 'a env =
  fwd_kernel :: "FlashAttentionImpl \<Rightarrow> 'a fwd_args \<Rightarrow> (idx4 \<Rightarrow> 'a) \<times> (idx3 \<Rightarrow> 'a)"
  bwd_kernel :: "FlashAttentionImpl \<Rightarrow> 'a bwd_args \<Rightarrow>
                   (idx4 \<Rightarrow> 'a) \<times> (idx4 \<Rightarrow> 'a) \<times> (idx4 \<Rightarrow> 'a)"
  cast :: "dtype \<Rightarrow> 'a \<Rightarrow> 'a"
  uninit :: "idx4 \<Rightarrow> 'a"
  logaddexp :: "'a \<Rightarrow> 'a \<Rightarrow> 'a"
  exp_sub :: "'a \<Rightarrow> 'a \<Rightarrow> 'a"

text \<open>
  The value of \<^verbatim>\<open>t.to(dt)\<close>: the tensor itself when it already has this dtype, its
  elements rounded to \<open>dt\<close> otherwise.
\<close>

definition to_dtype :: "'a env \<Rightarrow> dtype \<Rightarrow> ('i, 'a) tensor \<Rightarrow> ('i, 'a) tensor" where
  "to_dtype env dt t =
     (if dtype t = dt then t else t\<lparr>dtype := dt, elems := (\<lambda>i. cast env dt (elems t i))\<rparr>)"

text \<open>\<^verbatim>\<open>torch.empty(t.shape, dtype=t.dtype)\<close> and \<^verbatim>\<open>torch.empty_like(t)\<close>.\<close>

definition empty_like :: "'a env \<Rightarrow> 'a tensor4 \<Rightarrow> 'a tensor4" where
  "empty_like env t = \<lparr>dtype = dtype t, shape = shape t, elems = uninit env\<rparr>"

text \<open>
  Modelled from the spec: the forward attention kernel chosen by
  \<^verbatim>\<open>select_flash_attn_impl(attn_type, stage="fwd-only")\<close> (module
  \<^verbatim>\<open>yunchang.kernels\<close> is not part of the source). It returns a block output with the
  shape and dtype of the query it was given and a 32-bit log-sum-exp of shape
  \<open>(batch, heads, seq)\<close>; the numbers are the environment's.
\<close>

definition call_fwd_kernel ::
  "'a env \<Rightarrow> FlashAttentionImpl \<Rightarrow> 'a fwd_args \<Rightarrow> 'a tensor4 \<times> 'a tensor3" where
  "call_fwd_kernel env impl a =
     (case shape (fa_q a) of (b, s, h, d) \<Rightarrow>
        (\<lparr>dtype = dtype (fa_q a), shape = (b, s, h, d), elems = fst (fwd_kernel env impl a)\<rparr>,
         \<lparr>dtype = Float32, shape = (b, h, s), elems = snd (fwd_kernel env impl a)\<rparr>))"

subsection \<open>The online-softmax merge\<close>

text \<open>
  Modelled from the spec: \<^verbatim>\<open>update_out_and_lse\<close> (module \<^verbatim>\<open>yunchang.ring.utils\<close>
  is not part of the source), the spec's \<open>merge(running, block_output, block_lse,
  row_offset)\<close>. The running pair is the output and the log-sum-exp in the layout
  \<open>(batch, seq, heads, 1)\<close> that the driver's final \<^verbatim>\<open>squeeze\<close> and \<^verbatim>\<open>transpose\<close>
  expect, both in 32-bit precision. \<open>slc = Some n\<close> is the Python argument
  \<^verbatim>\<open>slice_=(slice(None), slice(n, None))\<close>: the block stands for rows \<open>[n, end)\<close>.
  \<^item> Running empty: the block is assigned into these rows, the others are left empty
    (uninitialised).
  \<^item> Otherwise, in these rows, the new log-sum-exp is the log of the sum of the
    exponentials of the two (\<open>logaddexp\<close>), and the new output is the sum of the two
    outputs, each weighted by the exponential of its own log-sum-exp minus the new
    one (\<open>exp_sub\<close>); the other rows are passed through unchanged.
\<close>

definition block_lse_at :: "'a tensor3 \<Rightarrow> nat \<Rightarrow> idx4 \<Rightarrow> 'a" where
  "block_lse_at block_lse n = (\<lambda>(b, s, h, d). elems block_lse (b, h, s - n))"

definition block_out_at :: "'a tensor4 \<Rightarrow> nat \<Rightarrow> idx4 \<Rightarrow> 'a" where
  "block_out_at block_out n = (\<lambda>(b, s, h, d). elems block_out (b, s - n, h, d))"

definition update_out_and_lse ::
  "('a::{plus,times}) env \<Rightarrow> ('a tensor4 \<times> 'a tensor4) option \<Rightarrow> 'a tensor4 \<Rightarrow> 'a tensor3 \<Rightarrow>
     nat option \<Rightarrow> 'a tensor4 \<times> 'a tensor4" where
  "update_out_and_lse env running block_out block_lse slc =
     (let n = (case slc of None \<Rightarrow> 0 | Some n \<Rightarrow> n) in
      case running of
        None \<Rightarrow>
          (case shape block_out of (b, s, h, d) \<Rightarrow>
             (\<lparr>dtype = Float32, shape = (b, s + n, h, d),
               elems = (\<lambda>(b', s', h', d').
                  if n \<le> s'
                  then elems (to_dtype env Float32 block_out) (b', s' - n, h', d')
                  else uninit env (b', s', h', d'))\<rparr>,
              \<lparr>dtype = Float32, shape = (b, s + n, h, 1),
               elems = (\<lambda>(b', s', h', d').
                  if n \<le> s' then block_lse_at block_lse n (b', s', h', d')
                  else uninit env (b', s', h', d'))\<rparr>))
      | Some (out, lse) \<Rightarrow>
          (out\<lparr>elems := (\<lambda>(b', s', h', d').
               if n \<le> s' then
                 (let old_lse = elems lse (b', s', h', 0);
                      blk_lse = block_lse_at block_lse n (b', s', h', d');
                      new_lse = logaddexp env old_lse blk_lse
                  in exp_sub env old_lse new_lse * elems out (b', s', h', d')
                     + exp_sub env blk_lse new_lse * block_out_at block_out n (b', s', h', d'))
               else elems out (b', s', h', d'))\<rparr>,
           lse\<lparr>elems := (\<lambda>(b', s', h', d').
               if n \<le> s' then
                 logaddexp env (elems lse (b', s', h', d'))
                   (block_lse_at block_lse n (b', s', h', d'))
               else elems lse (b', s', h', d'))\<rparr>))"

subsection \<open>Errors, events and the ring\<close>

datatype error =
    AssertionError string
  | AttributeError
  | TypeError
  | ZeroDivisionError
  | IndexError

fun is_AssertionError :: "error \<Rightarrow> bool" where
  "is_AssertionError (AssertionError m) = True"
| "is_AssertionError e = False"

text \<open>The messages of the assertions of lines 20--22 and 96--98.\<close>

definition forward_causal_message :: string where
  "forward_causal_message =
     ''stripe flash attn only supports causal attention, if not causal, use ring flash attn instead''"

definition backward_causal_message :: string where
  "backward_causal_message =
     ''stripe flash attn only supports causal attention, if not causal, ring flash attn instead''"

text \<open>Which branch of the driver's \<^verbatim>\<open>if\<close> a kernel call comes from.\<close>

datatype mode = Full | Shifted

text \<open>
  The \<^verbatim>\<open>RingComm\<close> objects: \<^verbatim>\<open>comm\<close> of the forward pass, \<^verbatim>\<open>kv_comm\<close> and
  \<^verbatim>\<open>d_kv_comm\<close> of the backward pass.
\<close>

datatype comm = Comm | KV_comm | D_KV_comm

text \<open>
  What a step does, in the order it does it: \<^verbatim>\<open>send_recv(to_send, recv_tensor)\<close>,
  \<^verbatim>\<open>commit()\<close> and \<^verbatim>\<open>wait()\<close> on a ring, a forward kernel call, a call of
  \<^verbatim>\<open>update_out_and_lse\<close> with its \<^verbatim>\<open>slice_\<close>, an evaluation of
  \<^verbatim>\<open>softmax_lse[:, :, 1:].contiguous()\<close>, a backward kernel call.
\<close>

datatype 'a event =
    SendRecv comm "'a tensor4" "'a tensor4 option"
  | Commit comm
  | Wait comm
  | FwdKernel mode "'a fwd_args"
  | Merge "nat option"
  | LseSlice
  | BwdKernel mode "'a bwd_args"

text \<open>
  \<^verbatim>\<open>RingComm(process_group)\<close> reads the size of the ring and the rank of the caller
  from the process group.
\<close>

record process_group =
  pg_world_size :: nat
  pg_rank :: nat

record 'a hparams =
  hp_softmax_scale :: real
  hp_dropout_p :: real
  hp_causal :: bool
  hp_window_size :: "int \<times> int"
  hp_softcap :: real
  hp_alibi_slopes :: "(nat \<times> nat, 'a) tensor option"
  hp_deterministic :: bool
  hp_attn_type :: FlashAttentionImpl

text \<open>
  Modelled from the spec: \<^verbatim>\<open>RingComm.send_recv\<close>, \<^verbatim>\<open>commit\<close> and \<^verbatim>\<open>wait\<close> (module
  \<^verbatim>\<open>yunchang.ring.utils\<close> is not part of the source). \<^verbatim>\<open>send_recv(to_send, buf)\<close>
  queues the transfer of \<open>to_send\<close> to the next peer and returns the receive buffer:
  \<open>buf\<close> when given, a fresh buffer like \<open>to_send\<close> otherwise. After \<^verbatim>\<open>wait\<close> the
  buffer holds the elements that arrived from the previous peer.
\<close>

definition filled :: "'a tensor4 \<Rightarrow> (idx4 \<Rightarrow> 'a) \<Rightarrow> 'a tensor4" where
  "filled buf incoming = buf\<lparr>elems := incoming\<rparr>"

subsection \<open>\<^verbatim>\<open>stripe_flash_attn_forward\<close>\<close>

text \<open>
  The local variables of the function that live across iterations, and the log. K and V
  are never written in place, only rebound, so they are values.
\<close>

record 'a fwd_state =
  fs_k :: "'a tensor4"
  fs_v :: "'a tensor4"
  fs_running :: "('a tensor4 \<times> 'a tensor4) option"
  fs_next_k :: "'a tensor4 option"
  fs_next_v :: "'a tensor4 option"
  fs_log :: "'a event list list"

text \<open>The arguments of the kernel calls of lines 38--49 and 53--64.\<close>

definition fwd_call :: "'a hparams \<Rightarrow> 'a tensor4 \<Rightarrow> 'a tensor4 \<Rightarrow> 'a tensor4 \<Rightarrow> 'a fwd_args" where
  "fwd_call hp q k v =
     \<lparr>fa_q = q, fa_k = k, fa_v = v,
      fa_dropout_p = hp_dropout_p hp,
      fa_softmax_scale = hp_softmax_scale hp,
      fa_causal = hp_causal hp,
      fa_window_size = hp_window_size hp,
      fa_softcap = hp_softcap hp,
      fa_alibi_slopes = hp_alibi_slopes hp,
      fa_return_softmax = (True \<and> hp_dropout_p hp > 0)\<rparr>"

text \<open>Lines 36--67: the kernel call and the merge, in one of the two modes.\<close>

definition fwd_compute ::
  "('a::{plus,times}) env \<Rightarrow> process_group \<Rightarrow> 'a hparams \<Rightarrow> 'a tensor4 \<Rightarrow> nat \<Rightarrow>
     'a tensor4 \<Rightarrow> 'a tensor4 \<Rightarrow> ('a tensor4 \<times> 'a tensor4) option \<Rightarrow>
     'a event list \<times> ('a tensor4 \<times> 'a tensor4)" where
  "fwd_compute env pg hp q step k v running =
     (if step \<le> pg_rank pg then
        (let a = fwd_call hp q k v;
             (block_out, block_lse) = call_fwd_kernel env (hp_attn_type hp) a
         in ([FwdKernel Full a, Merge None],
             update_out_and_lse env running block_out block_lse None))
      else
        (let a = fwd_call hp (rows_from1 q) (rows_to_last k) (rows_to_last v);
             (block_out, block_lse) = call_fwd_kernel env (hp_attn_type hp) a
         in ([FwdKernel Shifted a, Merge (Some 1)],
             update_out_and_lse env running block_out block_lse (Some 1))))"

text \<open>
  One iteration of the loop of lines 30--72. \<open>inbox step\<close> is the pair of K and V
  elements that arrive from the previous peer during this step.
\<close>

definition fwd_step ::
  "('a::{plus,times}) env \<Rightarrow> process_group \<Rightarrow> 'a hparams \<Rightarrow>
     (nat \<Rightarrow> (idx4 \<Rightarrow> 'a) \<times> (idx4 \<Rightarrow> 'a)) \<Rightarrow> 'a tensor4 \<Rightarrow> nat \<Rightarrow> 'a fwd_state \<Rightarrow> 'a fwd_state" where
  "fwd_step env pg hp inbox q step st =
     (let k = fs_k st; v = fs_v st;
          (compute, running) = fwd_compute env pg hp q step k v (fs_running st)
      in if step + 1 \<noteq> pg_world_size pg then
           (let next_k = filled (empty_like env k) (fst (inbox step));
                next_v = filled (empty_like env v) (snd (inbox step))
            in \<lparr>fs_k = next_k, fs_v = next_v, fs_running = Some running,
                fs_next_k = Some next_k, fs_next_v = Some next_v,
                fs_log = fs_log st @
                  [[SendRecv Comm k None, SendRecv Comm v None, Commit Comm]
                   @ compute @ [Wait Comm]]\<rparr>)
         else
           st\<lparr>fs_running := Some running, fs_log := fs_log st @ [compute]\<rparr>)"

definition fwd_init :: "'a tensor4 \<Rightarrow> 'a tensor4 \<Rightarrow> 'a fwd_state" where
  "fwd_init k v =
     \<lparr>fs_k = k, fs_v = v, fs_running = None, fs_next_k = None, fs_next_v = None, fs_log = []\<rparr>"

definition fwd_loop ::
  "('a::{plus,times}) env \<Rightarrow> process_group \<Rightarrow> 'a hparams \<Rightarrow>
     (nat \<Rightarrow> (idx4 \<Rightarrow> 'a) \<times> (idx4 \<Rightarrow> 'a)) \<Rightarrow> 'a tensor4 \<Rightarrow> 'a tensor4 \<Rightarrow> 'a tensor4 \<Rightarrow> nat \<Rightarrow>
     'a fwd_state" where
  "fwd_loop env pg hp inbox q k v n = fold (fwd_step env pg hp inbox q) [0..<n] (fwd_init k v)"

text \<open>
  The function: the assertion, the loop over \<^verbatim>\<open>range(comm.world_size)\<close>, the final cast
  and reshape. With an empty ring the loop body never runs and \<^verbatim>\<open>out.to\<close> is called on
  \<^verbatim>\<open>None\<close>. The argument \<^verbatim>\<open>deterministic\<close> is a field of \<open>hp\<close>.
\<close>

definition stripe_flash_attn_forward ::
  "('a::{plus,times}) env \<Rightarrow> process_group \<Rightarrow> (nat \<Rightarrow> (idx4 \<Rightarrow> 'a) \<times> (idx4 \<Rightarrow> 'a)) \<Rightarrow>
     'a tensor4 \<Rightarrow> 'a tensor4 \<Rightarrow> 'a tensor4 \<Rightarrow> 'a hparams \<Rightarrow>
     (error + 'a tensor4 \<times> 'a tensor_nd) \<times> 'a event list list" where
  "stripe_flash_attn_forward env pg inbox q k v hp =
     (if \<not> hp_causal hp then
        (Inl (AssertionError forward_causal_message), [])
      else
        (let st = fwd_loop env pg hp inbox q k v (pg_world_size pg) in
         case fs_running st of
           None \<Rightarrow> (Inl AttributeError, fs_log st)
         | Some (out, lse) \<Rightarrow>
             (Inr (to_dtype env (dtype q) out, transpose_1_2 (squeeze_last lse)), fs_log st)))"

subsection \<open>\<^verbatim>\<open>stripe_flash_attn_backward\<close>\<close>

text \<open>
  The backward pass writes tensors in place (the kernel into the three block buffers,
  \<^verbatim>\<open>+=\<close> into the accumulators, \<^verbatim>\<open>wait\<close> into the receive buffers) and rebinds
  variables to tensors that other variables still name; \<^verbatim>\<open>.to(torch.float32)\<close>
  returns its argument itself when that is already a 32-bit tensor. So the gradient
  tensors live in a store, at addresses, and the variables hold addresses. The three
  block buffers are at addresses 0, 1 and 2.
\<close>

definition block_dq_buffer :: nat where "block_dq_buffer = 0"
definition block_dk_buffer :: nat where "block_dk_buffer = 1"
definition block_dv_buffer :: nat where "block_dv_buffer = 2"

record 'a bwd_state =
  bs_heap :: "nat \<Rightarrow> 'a tensor4"
  bs_free :: nat
  bs_k :: "'a tensor4"
  bs_v :: "'a tensor4"
  bs_dq :: "nat option"
  bs_dk :: "nat option"
  bs_dv :: "nat option"
  bs_next_dk :: "nat option"
  bs_next_dv :: "nat option"
  bs_next_k :: "'a tensor4 option"
  bs_next_v :: "'a tensor4 option"
  bs_dk_comm_buffer :: "nat option"
  bs_dv_comm_buffer :: "nat option"
  bs_softmax_lse_1 :: "'a tensor3 option"
  bs_error :: "error option"
  bs_events :: "'a event list"
  bs_log :: "'a event list list"

text \<open>What arrives at a rank in one step: K and V, and the partial dK and dV.\<close>

record 'a arrival =
  ar_k :: "idx4 \<Rightarrow> 'a"
  ar_v :: "idx4 \<Rightarrow> 'a"
  ar_dk :: "idx4 \<Rightarrow> 'a"
  ar_dv :: "idx4 \<Rightarrow> 'a"

definition alloc :: "'a tensor4 \<Rightarrow> 'a bwd_state \<Rightarrow> nat \<times> 'a bwd_state" where
  "alloc t st =
     (bs_free st, st\<lparr>bs_heap := (bs_heap st)(bs_free st := t), bs_free := Suc (bs_free st)\<rparr>)"

text \<open>\<^verbatim>\<open>x.to(torch.float32)\<close> for the tensor at address \<open>a\<close>: the address of the result.\<close>

definition to_float32 :: "'a env \<Rightarrow> nat \<Rightarrow> 'a bwd_state \<Rightarrow> nat \<times> 'a bwd_state" where
  "to_float32 env a st =
     (if dtype (bs_heap st a) = Float32 then (a, st)
      else alloc (to_dtype env Float32 (bs_heap st a)) st)"

text \<open>The dtype of \<^verbatim>\<open>x + y\<close> for floating-point tensors (type promotion).\<close>

definition promote :: "dtype \<Rightarrow> dtype \<Rightarrow> dtype" where
  "promote a b =
     (if a = b then a
      else if a = Float64 \<or> b = Float64 then Float64
      else Float32)"

text \<open>\<^verbatim>\<open>x + y\<close>, \<^verbatim>\<open>x += y\<close>, \<^verbatim>\<open>x[:, 1:] += y[:, 1:]\<close> and \<^verbatim>\<open>x[:, :-1] += y[:, :-1]\<close>.\<close>

definition add_new :: "('a::plus) tensor4 \<Rightarrow> 'a tensor4 \<Rightarrow> 'a tensor4" where
  "add_new x y =
     \<lparr>dtype = promote (dtype x) (dtype y), shape = shape x,
      elems = (\<lambda>i. elems x i + elems y i)\<rparr>"

definition add_inplace :: "('a::plus) tensor4 \<Rightarrow> 'a tensor4 \<Rightarrow> 'a tensor4" where
  "add_inplace x y = x\<lparr>elems := (\<lambda>i. elems x i + elems y i)\<rparr>"

definition add_rows_from1 :: "('a::plus) tensor4 \<Rightarrow> 'a tensor4 \<Rightarrow> 'a tensor4" where
  "add_rows_from1 x y =
     x\<lparr>elems := (\<lambda>(b, s, h, d).
         if 1 \<le> s then elems x (b, s, h, d) + elems y (b, s, h, d) else elems x (b, s, h, d))\<rparr>"

definition add_rows_to_last :: "('a::plus) tensor4 \<Rightarrow> 'a tensor4 \<Rightarrow> 'a tensor4" where
  "add_rows_to_last x y =
     (case shape x of (B, S, H, D) \<Rightarrow>
        x\<lparr>elems := (\<lambda>(b, s, h, d).
            if s + 1 < S then elems x (b, s, h, d) + elems y (b, s, h, d)
            else elems x (b, s, h, d))\<rparr>)"

text \<open>
  Modelled from the spec: the backward attention kernel chosen by
  \<^verbatim>\<open>select_flash_attn_impl(attn_type, stage="bwd-only")\<close> (module
  \<^verbatim>\<open>yunchang.kernels\<close> is not part of the source). It writes the gradients into the
  three buffers it is given and returns nothing; the numbers are the environment's,
  indexed as in the buffers given. When a buffer given is a view \<^verbatim>\<open>buf[:, 1:]\<close> or
  \<^verbatim>\<open>buf[:, :-1]\<close>, the rows outside the view keep what they held.
\<close>

definition write_all :: "'a tensor4 \<Rightarrow> (idx4 \<Rightarrow> 'a) \<Rightarrow> 'a tensor4" where
  "write_all buf e = buf\<lparr>elems := e\<rparr>"

definition write_rows_from1 :: "'a tensor4 \<Rightarrow> (idx4 \<Rightarrow> 'a) \<Rightarrow> 'a tensor4" where
  "write_rows_from1 buf e =
     buf\<lparr>elems := (\<lambda>(b, s, h, d).
         if 1 \<le> s then e (b, s - 1, h, d) else elems buf (b, s, h, d))\<rparr>"

definition write_rows_to_last :: "'a tensor4 \<Rightarrow> (idx4 \<Rightarrow> 'a) \<Rightarrow> 'a tensor4" where
  "write_rows_to_last buf e =
     (case shape buf of (B, S, H, D) \<Rightarrow>
        buf\<lparr>elems := (\<lambda>(b, s, h, d).
            if s + 1 < S then e (b, s, h, d) else elems buf (b, s, h, d))\<rparr>)"

text \<open>The arguments of the kernel calls of lines 119--137 and 143--161.\<close>

definition bwd_call ::
  "'a hparams \<Rightarrow> 'a tensor4 \<Rightarrow> 'a tensor4 \<Rightarrow> 'a tensor4 \<Rightarrow> 'a tensor4 \<Rightarrow> 'a tensor4 \<Rightarrow> 'a tensor3 \<Rightarrow>
     'a tensor4 \<Rightarrow> 'a tensor4 \<Rightarrow> 'a tensor4 \<Rightarrow> 'a bwd_args" where
  "bwd_call hp dout q k v out lse dq_buf dk_buf dv_buf =
     \<lparr>ba_dout = dout, ba_q = q, ba_k = k, ba_v = v, ba_out = out, ba_softmax_lse = lse,
      ba_dq = dq_buf, ba_dk = dk_buf, ba_dv = dv_buf,
      ba_dropout_p = hp_dropout_p hp,
      ba_softmax_scale = hp_softmax_scale hp,
      ba_causal = hp_causal hp,
      ba_window_size = hp_window_size hp,
      ba_softcap = hp_softcap hp,
      ba_alibi_slopes = hp_alibi_slopes hp,
      ba_deterministic = hp_deterministic hp\<rparr>"

definition emit :: "'a event list \<Rightarrow> 'a bwd_state \<Rightarrow> 'a bwd_state" where
  "emit es st = st\<lparr>bs_events := bs_events st @ es\<rparr>"

definition raise :: "error \<Rightarrow> 'a bwd_state \<Rightarrow> 'a bwd_state" where
  "raise e st = st\<lparr>bs_error := Some e\<rparr>"

text \<open>Lines 110--113: the fetch of the next K and V.\<close>

definition bwd_fetch :: "'a env \<Rightarrow> process_group \<Rightarrow> nat \<Rightarrow> 'a bwd_state \<Rightarrow> 'a bwd_state" where
  "bwd_fetch env pg step st =
     (if step + 1 \<noteq> pg_world_size pg then
        emit [SendRecv KV_comm (bs_k st) None, SendRecv KV_comm (bs_v st) None, Commit KV_comm]
          (st\<lparr>bs_next_k := Some (empty_like env (bs_k st)),
              bs_next_v := Some (empty_like env (bs_v st))\<rparr>)
      else st)"

text \<open>Lines 139--141: the lazily initialised slice of the saved log-sum-exp.\<close>

definition lazy_lse_1 :: "'a tensor3 \<Rightarrow> 'a bwd_state \<Rightarrow> 'a bwd_state" where
  "lazy_lse_1 softmax_lse st =
     (case bs_softmax_lse_1 st of
        None \<Rightarrow> emit [LseSlice] (st\<lparr>bs_softmax_lse_1 := Some (lse_from1 softmax_lse)\<rparr>)
      | Some l \<Rightarrow> st)"

text \<open>Lines 115--161: the mode, and the kernel call that fills the block buffers.\<close>

definition bwd_compute ::
  "'a env \<Rightarrow> process_group \<Rightarrow> 'a hparams \<Rightarrow> 'a tensor4 \<Rightarrow> 'a tensor4 \<Rightarrow> 'a tensor4 \<Rightarrow> 'a tensor3 \<Rightarrow>
     nat \<Rightarrow> 'a bwd_state \<Rightarrow> 'a bwd_state" where
  "bwd_compute env pg hp dout q out softmax_lse step st0 =
     (let shift_causal = (step > pg_rank pg);
          st = st0\<lparr>bs_softmax_lse_1 := None\<rparr>;
          h = bs_heap st
      in if \<not> shift_causal then
           (let a = bwd_call hp dout q (bs_k st) (bs_v st) out softmax_lse
                      (h block_dq_buffer) (h block_dk_buffer) (h block_dv_buffer);
                (dq_e, dk_e, dv_e) = bwd_kernel env (hp_attn_type hp) a
            in emit [BwdKernel Full a]
                 (st\<lparr>bs_heap := h(block_dq_buffer := write_all (h block_dq_buffer) dq_e,
                                   block_dk_buffer := write_all (h block_dk_buffer) dk_e,
                                   block_dv_buffer := write_all (h block_dv_buffer) dv_e)\<rparr>))
         else
           (let st1 = lazy_lse_1 softmax_lse st
            in case bs_softmax_lse_1 st1 of
                 None \<Rightarrow> raise TypeError st1
               | Some softmax_lse_1 \<Rightarrow>
                   (let a = bwd_call hp (rows_from1 dout) (rows_from1 q)
                              (rows_to_last (bs_k st)) (rows_to_last (bs_v st))
                              (rows_from1 out) softmax_lse_1
                              (rows_from1 (h block_dq_buffer))
                              (rows_to_last (h block_dk_buffer))
                              (rows_to_last (h block_dv_buffer));
                        (dq_e, dk_e, dv_e) = bwd_kernel env (hp_attn_type hp) a
                    in emit [BwdKernel Shifted a]
                         (st1\<lparr>bs_heap :=
                            h(block_dq_buffer := write_rows_from1 (h block_dq_buffer) dq_e,
                              block_dk_buffer := write_rows_to_last (h block_dk_buffer) dk_e,
                              block_dv_buffer := write_rows_to_last (h block_dv_buffer) dv_e)\<rparr>))))"

text \<open>
  \<^verbatim>\<open>d_kv_comm.wait()\<close>: the receive buffers of the committed gradient transfer are the
  tensors that \<^verbatim>\<open>next_dk\<close> and \<^verbatim>\<open>next_dv\<close> name; they now hold what arrived.
\<close>

definition wait_d_kv :: "(idx4 \<Rightarrow> 'a) \<Rightarrow> (idx4 \<Rightarrow> 'a) \<Rightarrow> 'a bwd_state \<Rightarrow> 'a bwd_state" where
  "wait_d_kv in_dk in_dv st =
     (let h = bs_heap st;
          h1 = (case bs_next_dk st of None \<Rightarrow> h | Some a \<Rightarrow> h(a := filled (h a) in_dk));
          h2 = (case bs_next_dv st of None \<Rightarrow> h1 | Some a \<Rightarrow> h1(a := filled (h1 a) in_dv))
      in emit [Wait D_KV_comm] (st\<lparr>bs_heap := h2\<rparr>))"

text \<open>Lines 163--166: the first step initialises the three accumulators.\<close>

definition bwd_init_grads :: "'a env \<Rightarrow> 'a bwd_state \<Rightarrow> 'a bwd_state" where
  "bwd_init_grads env st =
     (let (dq, st1) = to_float32 env block_dq_buffer st;
          (dk, st2) = to_float32 env block_dk_buffer st1;
          (dv, st3) = to_float32 env block_dv_buffer st2
      in st3\<lparr>bs_dq := Some dq, bs_dk := Some dk, bs_dv := Some dv\<rparr>)"

text \<open>Lines 168--171: dQ is accumulated in place.\<close>

definition bwd_add_dq :: "bool \<Rightarrow> nat \<Rightarrow> ('a::plus) bwd_state \<Rightarrow> 'a bwd_state" where
  "bwd_add_dq shift_causal dq st =
     (let h = bs_heap st in
      if \<not> shift_causal
      then st\<lparr>bs_heap := h(dq := add_inplace (h dq) (h block_dq_buffer))\<rparr>
      else st\<lparr>bs_heap := h(dq := add_rows_from1 (h dq) (h block_dq_buffer))\<rparr>)"

text \<open>
  Lines 173--182: the received partial dK and dV become the accumulators and this
  step's block is added, into a new tensor or in place.
\<close>

definition bwd_add_dkv :: "bool \<Rightarrow> ('a::plus) bwd_state \<Rightarrow> 'a bwd_state" where
  "bwd_add_dkv shift_causal st0 =
     (let st = st0\<lparr>bs_dk_comm_buffer := bs_dk st0, bs_dv_comm_buffer := bs_dv st0,
                   bs_dk := bs_next_dk st0, bs_dv := bs_next_dv st0\<rparr>
      in case (bs_dk st, bs_dv st) of
           (Some dk, Some dv) \<Rightarrow>
             if \<not> shift_causal then
               (let (dk', st1) = alloc (add_new (bs_heap st block_dk_buffer) (bs_heap st dk)) st;
                    (dv', st2) = alloc (add_new (bs_heap st1 block_dv_buffer) (bs_heap st1 dv)) st1
                in st2\<lparr>bs_dk := Some dk', bs_dv := Some dv'\<rparr>)
             else
               (let h = bs_heap st;
                    h1 = h(dk := add_rows_to_last (h dk) (h block_dk_buffer));
                    h2 = h1(dv := add_rows_to_last (h1 dv) (h1 block_dv_buffer))
                in st\<lparr>bs_heap := h2\<rparr>)
         | _ \<Rightarrow> raise TypeError st)"

text \<open>Lines 163--182.\<close>

definition bwd_accumulate ::
  "('a::plus) env \<Rightarrow> process_group \<Rightarrow> nat \<Rightarrow> 'a arrival \<Rightarrow> 'a bwd_state \<Rightarrow> 'a bwd_state" where
  "bwd_accumulate env pg step ar st =
     (case bs_dq st of
        None \<Rightarrow> bwd_init_grads env st
      | Some dq \<Rightarrow>
          bwd_add_dkv (step > pg_rank pg)
            (wait_d_kv (ar_dk ar) (ar_dv ar)
               (bwd_add_dq (step > pg_rank pg) dq st)))"

text \<open>Lines 184--187: the wait for K and V, which then become the current ones.\<close>

definition bwd_rotate_kv :: "process_group \<Rightarrow> nat \<Rightarrow> 'a arrival \<Rightarrow> 'a bwd_state \<Rightarrow> 'a bwd_state" where
  "bwd_rotate_kv pg step ar st =
     (if step + 1 \<noteq> pg_world_size pg then
        (case (bs_next_k st, bs_next_v st) of
           (Some bk, Some bv) \<Rightarrow>
             emit [Wait KV_comm]
               (st\<lparr>bs_next_k := Some (filled bk (ar_k ar)),
                   bs_next_v := Some (filled bv (ar_v ar)),
                   bs_k := filled bk (ar_k ar),
                   bs_v := filled bv (ar_v ar)\<rparr>)
         | _ \<Rightarrow> raise TypeError (emit [Wait KV_comm] st))
      else st)"

text \<open>
  \<^verbatim>\<open>d_kv_comm.send_recv(x, buf)\<close>: the address of the receive buffer, which is \<open>buf\<close>
  when given and a new tensor like \<open>x\<close> otherwise.
\<close>

definition send_recv_d_kv :: "'a env \<Rightarrow> nat \<Rightarrow> nat option \<Rightarrow> 'a bwd_state \<Rightarrow> nat \<times> 'a bwd_state" where
  "send_recv_d_kv env x buf st =
     (let e = SendRecv D_KV_comm (bs_heap st x) (map_option (bs_heap st) buf)
      in case buf of
           None \<Rightarrow> alloc (empty_like env (bs_heap st x)) (emit [e] st)
         | Some b \<Rightarrow> (b, emit [e] st))"

text \<open>Lines 189--191: the accumulated dK and dV leave for the next peer.\<close>

definition bwd_send_grads :: "'a env \<Rightarrow> 'a bwd_state \<Rightarrow> 'a bwd_state" where
  "bwd_send_grads env st =
     (case (bs_dk st, bs_dv st) of
        (Some dk, Some dv) \<Rightarrow>
          (let (next_dk, st1) = send_recv_d_kv env dk (bs_dk_comm_buffer st) st;
               (next_dv, st2) = send_recv_d_kv env dv (bs_dv_comm_buffer st1) st1
           in emit [Commit D_KV_comm] (st2\<lparr>bs_next_dk := Some next_dk, bs_next_dv := Some next_dv\<rparr>))
      | _ \<Rightarrow> raise TypeError st)"

text \<open>A statement runs only if no exception is pending.\<close>

definition ok :: "('a bwd_state \<Rightarrow> 'a bwd_state) \<Rightarrow> 'a bwd_state \<Rightarrow> 'a bwd_state" where
  "ok f st = (if bs_error st = None then f st else st)"

text \<open>
  One iteration of the loop of lines 109--191; \<open>arrivals step\<close> is what arrives during
  this step: K and V for the wait of line 185, the partial dK and dV for the wait of
  line 172. The events of the iteration are appended to the log as one entry.
\<close>

definition bwd_step ::
  "('a::plus) env \<Rightarrow> process_group \<Rightarrow> 'a hparams \<Rightarrow> (nat \<Rightarrow> 'a arrival) \<Rightarrow>
     'a tensor4 \<Rightarrow> 'a tensor4 \<Rightarrow> 'a tensor4 \<Rightarrow> 'a tensor3 \<Rightarrow> nat \<Rightarrow> 'a bwd_state \<Rightarrow> 'a bwd_state" where
  "bwd_step env pg hp arrivals dout q out softmax_lse step st =
     (if bs_error st \<noteq> None then st
      else
        (let st1 = bwd_fetch env pg step (st\<lparr>bs_events := []\<rparr>);
             st2 = ok (bwd_compute env pg hp dout q out softmax_lse step) st1;
             st3 = ok (bwd_accumulate env pg step (arrivals step)) st2;
             st4 = ok (bwd_rotate_kv pg step (arrivals step)) st3;
             st5 = ok (bwd_send_grads env) st4
         in st5\<lparr>bs_events := [], bs_log := bs_log st5 @ [bs_events st5]\<rparr>))"

text \<open>Lines 99--108: the state before the loop.\<close>

definition bwd_init :: "'a env \<Rightarrow> 'a tensor4 \<Rightarrow> 'a tensor4 \<Rightarrow> 'a tensor4 \<Rightarrow> 'a bwd_state" where
  "bwd_init env q k v =
     \<lparr>bs_heap = (\<lambda>a. empty_like env q)
        (block_dq_buffer := empty_like env q,
         block_dk_buffer := empty_like env k,
         block_dv_buffer := empty_like env v),
      bs_free = 3,
      bs_k = k, bs_v = v,
      bs_dq = None, bs_dk = None, bs_dv = None,
      bs_next_dk = None, bs_next_dv = None,
      bs_next_k = None, bs_next_v = None,
      bs_dk_comm_buffer = None, bs_dv_comm_buffer = None,
      bs_softmax_lse_1 = None,
      bs_error = None, bs_events = [], bs_log = []\<rparr>"

definition bwd_loop ::
  "('a::plus) env \<Rightarrow> process_group \<Rightarrow> 'a hparams \<Rightarrow> (nat \<Rightarrow> 'a arrival) \<Rightarrow>
     'a tensor4 \<Rightarrow> 'a tensor4 \<Rightarrow> 'a tensor4 \<Rightarrow> 'a tensor4 \<Rightarrow> 'a tensor4 \<Rightarrow> 'a tensor3 \<Rightarrow> nat \<Rightarrow>
     'a bwd_state" where
  "bwd_loop env pg hp arrivals dout q k v out softmax_lse n =
     fold (bwd_step env pg hp arrivals dout q out softmax_lse) [0..<n] (bwd_init env q k v)"

text \<open>
  The function: the assertion, the loop, the last wait on the gradient ring (which
  receives \<open>arrivals world_size\<close>) and the three casts. The result comes with the log
  of the loop and the events after it.
\<close>

definition stripe_flash_attn_backward ::
  "('a::plus) env \<Rightarrow> process_group \<Rightarrow> (nat \<Rightarrow> 'a arrival) \<Rightarrow>
     'a tensor4 \<Rightarrow> 'a tensor4 \<Rightarrow> 'a tensor4 \<Rightarrow> 'a tensor4 \<Rightarrow> 'a tensor4 \<Rightarrow> 'a tensor3 \<Rightarrow> 'a hparams \<Rightarrow>
     (error + 'a tensor4 \<times> 'a tensor4 \<times> 'a tensor4) \<times> 'a event list list \<times> 'a event list" where
  "stripe_flash_attn_backward env pg arrivals dout q k v out softmax_lse hp =
     (if \<not> hp_causal hp then
        (Inl (AssertionError backward_causal_message), [], [])
      else
        (let st = bwd_loop env pg hp arrivals dout q k v out softmax_lse (pg_world_size pg) in
         case bs_error st of
           Some e \<Rightarrow> (Inl e, bs_log st, [])
         | None \<Rightarrow>
             (let ar = arrivals (pg_world_size pg);
                  st' = wait_d_kv (ar_dk ar) (ar_dv ar) st;
                  h = bs_heap st'
              in case (bs_dq st', bs_next_dk st', bs_next_dv st') of
                   (Some dq, Some next_dk, Some next_dv) \<Rightarrow>
                     (Inr (to_dtype env (dtype q) (h dq),
                           to_dtype env (dtype q) (h next_dk),
                           to_dtype env (dtype q) (h next_dv)),
                      bs_log st', bs_events st')
                 | _ \<Rightarrow> (Inl AttributeError, bs_log st', bs_events st'))))"

subsection \<open>\<^verbatim>\<open>StripeFlashAttnFunc\<close> and the public entry points\<close>

text \<open>
  \<^verbatim>\<open>q.shape[-1] ** (-0.5)\<close>, an integer to a negative float power: Python raises
  \<^verbatim>\<open>ZeroDivisionError\<close> when the integer is 0.
\<close>

definition head_dim :: "'a tensor4 \<Rightarrow> nat" where
  "head_dim q = (case shape q of (b, s, h, d) \<Rightarrow> d)"

definition default_softmax_scale :: "'a tensor4 \<Rightarrow> error + real" where
  "default_softmax_scale q =
     (if head_dim q = 0 then Inl ZeroDivisionError
      else Inr (real (head_dim q) powr (- 1 / 2)))"

text \<open>
  The context object after \<^verbatim>\<open>forward\<close>: the saved tensors and the attributes set in
  lines 237--246.
\<close>

record 'a ctx =
  ctx_saved_tensors :: "'a tensor4 \<times> 'a tensor4 \<times> 'a tensor4 \<times> 'a tensor4 \<times> 'a tensor_nd"
  ctx_dropout_p :: real
  ctx_softmax_scale :: real
  ctx_causal :: bool
  ctx_window_size :: "int \<times> int"
  ctx_softcap :: real
  ctx_alibi_slopes :: "(nat \<times> nat, 'a) tensor option"
  ctx_deterministic :: bool
  ctx_group :: "process_group option"
  ctx_attn_type :: FlashAttentionImpl

text \<open>\<^verbatim>\<open>out if not return_softmax else (out, softmax_lse, None)\<close>.\<close>

datatype 'a fwd_result = Out "'a tensor4" | OutLse "'a tensor4" "'a tensor_nd"

text \<open>
  \<^verbatim>\<open>RingComm(group)\<close> with \<^verbatim>\<open>group=None\<close> is the ring of the default process group,
  here \<open>world\<close>.
\<close>

definition resolve_group :: "process_group \<Rightarrow> process_group option \<Rightarrow> process_group" where
  "resolve_group world grp = (case grp of None \<Rightarrow> world | Some g \<Rightarrow> g)"

text \<open>
  \<^verbatim>\<open>StripeFlashAttnFunc.forward\<close>, lines 216--247. The assertion of line 219 has no
  message. The result is the context and the value returned.
\<close>

definition StripeFlashAttnFunc_forward ::
  "('a::{plus,times}) env \<Rightarrow> process_group \<Rightarrow> (nat \<Rightarrow> (idx4 \<Rightarrow> 'a) \<times> (idx4 \<Rightarrow> 'a)) \<Rightarrow>
     'a tensor4 \<Rightarrow> 'a tensor4 \<Rightarrow> 'a tensor4 \<Rightarrow> real \<Rightarrow> real option \<Rightarrow> bool \<Rightarrow> int \<times> int \<Rightarrow> real \<Rightarrow>
     (nat \<times> nat, 'a) tensor option \<Rightarrow> bool \<Rightarrow> bool \<Rightarrow> process_group option \<Rightarrow>
     FlashAttentionImpl \<Rightarrow>
     (error + 'a ctx \<times> 'a fwd_result) \<times> 'a event list list" where
  "StripeFlashAttnFunc_forward env world inbox q k v dropout_p softmax_scale causal window_size
       softcap alibi_slopes deterministic return_softmax grp attn_type =
     (case (case softmax_scale of None \<Rightarrow> default_softmax_scale q | Some x \<Rightarrow> Inr x) of
        Inl e \<Rightarrow> (Inl e, [])
      | Inr scale \<Rightarrow>
          if alibi_slopes \<noteq> None then (Inl (AssertionError []), [])
          else
            (case stripe_flash_attn_forward env (resolve_group world grp) inbox q k v
                    \<lparr>hp_softmax_scale = scale, hp_dropout_p = dropout_p, hp_causal = causal,
                     hp_window_size = window_size, hp_softcap = softcap,
                     hp_alibi_slopes = alibi_slopes, hp_deterministic = False,
                     hp_attn_type = attn_type\<rparr> of
               (Inl e, steps) \<Rightarrow> (Inl e, steps)
             | (Inr (out, softmax_lse), steps) \<Rightarrow>
                 (Inr (\<lparr>ctx_saved_tensors = (q, k, v, out, softmax_lse),
                        ctx_dropout_p = dropout_p,
                        ctx_softmax_scale = scale,
                        ctx_causal = causal,
                        ctx_window_size = window_size,
                        ctx_softcap = softcap,
                        ctx_alibi_slopes = alibi_slopes,
                        ctx_deterministic = deterministic,
                        ctx_group = grp,
                        ctx_attn_type = attn_type\<rparr>,
                       if \<not> return_softmax then Out out else OutLse out softmax_lse),
                  steps)))"

text \<open>
  \<^verbatim>\<open>StripeFlashAttnFunc.backward\<close>. The saved log-sum-exp has three axes whenever it
  comes from the forward pass above; the kernel is not defined on anything else.
\<close>

definition StripeFlashAttnFunc_backward ::
  "('a::plus) env \<Rightarrow> process_group \<Rightarrow> (nat \<Rightarrow> 'a arrival) \<Rightarrow> 'a ctx \<Rightarrow> 'a tensor4 \<Rightarrow>
     (error + 'a tensor4 \<times> 'a tensor4 \<times> 'a tensor4) \<times> 'a event list list \<times> 'a event list" where
  "StripeFlashAttnFunc_backward env world arrivals ctx dout =
     (case ctx_saved_tensors ctx of
        (q, k, v, out, T3 softmax_lse) \<Rightarrow>
          stripe_flash_attn_backward env (resolve_group world (ctx_group ctx)) arrivals
            dout q k v out softmax_lse
            \<lparr>hp_softmax_scale = ctx_softmax_scale ctx, hp_dropout_p = ctx_dropout_p ctx,
             hp_causal = ctx_causal ctx, hp_window_size = ctx_window_size ctx,
             hp_softcap = ctx_softcap ctx, hp_alibi_slopes = ctx_alibi_slopes ctx,
             hp_deterministic = ctx_deterministic ctx, hp_attn_type = ctx_attn_type ctx\<rparr>
      | (q, k, v, out, T4 softmax_lse) \<Rightarrow> (Inl TypeError, [], []))"

text \<open>
  The keyword arguments of the three entry points; \<open>None\<close> is an argument that the
  caller did not pass, which then takes the default of the signature.
\<close>

record 'a kwargs =
  kw_dropout_p :: "real option"
  kw_softmax_scale :: "real option"
  kw_causal :: "bool option"
  kw_window_size :: "(int \<times> int) option"
  kw_softcap :: "real option"
  kw_alibi_slopes :: "(nat \<times> nat, 'a) tensor option"
  kw_deterministic :: "bool option"
  kw_return_attn_probs :: "bool option"
  kw_group :: "process_group option"
  kw_attn_type :: "FlashAttentionImpl option"

definition default :: "'b \<Rightarrow> 'b option \<Rightarrow> 'b" where
  "default d x = (case x of None \<Rightarrow> d | Some y \<Rightarrow> y)"

text \<open>\<^verbatim>\<open>StripeFlashAttnFunc.apply\<close> on the arguments that the entry points give it.\<close>

definition apply_func ::
  "('a::{plus,times}) env \<Rightarrow> process_group \<Rightarrow> (nat \<Rightarrow> (idx4 \<Rightarrow> 'a) \<times> (idx4 \<Rightarrow> 'a)) \<Rightarrow>
     'a tensor4 \<Rightarrow> 'a tensor4 \<Rightarrow> 'a tensor4 \<Rightarrow> 'a kwargs \<Rightarrow>
     (error + 'a ctx \<times> 'a fwd_result) \<times> 'a event list list" where
  "apply_func env world inbox q k v kw =
     StripeFlashAttnFunc_forward env world inbox q k v
       (default 0 (kw_dropout_p kw))
       (kw_softmax_scale kw)
       (default False (kw_causal kw))
       (default (- 1, - 1) (kw_window_size kw))
       (default 0 (kw_softcap kw))
       (kw_alibi_slopes kw)
       (default False (kw_deterministic kw))
       (default False (kw_return_attn_probs kw))
       (kw_group kw)
       (default FA (kw_attn_type kw))"

definition stripe_flash_attn_func ::
  "('a::{plus,times}) env \<Rightarrow> process_group \<Rightarrow> (nat \<Rightarrow> (idx4 \<Rightarrow> 'a) \<times> (idx4 \<Rightarrow> 'a)) \<Rightarrow>
     'a tensor4 \<Rightarrow> 'a tensor4 \<Rightarrow> 'a tensor4 \<Rightarrow> 'a kwargs \<Rightarrow>
     (error + 'a ctx \<times> 'a fwd_result) \<times> 'a event list list" where
  "stripe_flash_attn_func env world inbox q k v kw = apply_func env world inbox q k v kw"

text \<open>
  Packed tensors have five axes; \<^verbatim>\<open>t[:, :, i]\<close> selects index \<open>i\<close> of axis 2 and
  raises when the axis is too short.
\<close>

type_synonym idx5 = "nat \<times> nat \<times> nat \<times> nat \<times> nat"
type_synonym 'a tensor5 = "(idx5, 'a) tensor"

definition select_2 :: "'a tensor5 \<Rightarrow> nat \<Rightarrow> error + 'a tensor4" where
  "select_2 t i =
     (case shape t of (b, s, n, h, d) \<Rightarrow>
        if i < n
        then Inr \<lparr>dtype = dtype t, shape = (b, s, h, d),
                  elems = (\<lambda>(b', s', h', d'). elems t (b', s', i, h', d'))\<rparr>
        else Inl IndexError)"

definition stripe_flash_attn_qkvpacked_func ::
  "('a::{plus,times}) env \<Rightarrow> process_group \<Rightarrow> (nat \<Rightarrow> (idx4 \<Rightarrow> 'a) \<times> (idx4 \<Rightarrow> 'a)) \<Rightarrow>
     'a tensor5 \<Rightarrow> 'a kwargs \<Rightarrow>
     (error + 'a ctx \<times> 'a fwd_result) \<times> 'a event list list" where
  "stripe_flash_attn_qkvpacked_func env world inbox qkv kw =
     (case select_2 qkv 0 of Inl e \<Rightarrow> (Inl e, []) | Inr q \<Rightarrow>
     (case select_2 qkv 1 of Inl e \<Rightarrow> (Inl e, []) | Inr k \<Rightarrow>
     (case select_2 qkv 2 of Inl e \<Rightarrow> (Inl e, []) | Inr v \<Rightarrow>
        apply_func env world inbox q k v kw)))"

definition stripe_flash_attn_kvpacked_func ::
  "('a::{plus,times}) env \<Rightarrow> process_group \<Rightarrow> (nat \<Rightarrow> (idx4 \<Rightarrow> 'a) \<times> (idx4 \<Rightarrow> 'a)) \<Rightarrow>
     'a tensor4 \<Rightarrow> 'a tensor5 \<Rightarrow> 'a kwargs \<Rightarrow>
     (error + 'a ctx \<times> 'a fwd_result) \<times> 'a event list list" where
  "stripe_flash_attn_kvpacked_func env world inbox q kv kw =
     (case select_2 kv 0 of Inl e \<Rightarrow> (Inl e, []) | Inr k \<Rightarrow>
     (case select_2 kv 1 of Inl e \<Rightarrow> (Inl e, []) | Inr v \<Rightarrow>
        apply_func env world inbox q k v kw))"

subsection \<open>Reading the log\<close>

text \<open>The events of one ring: its transfers, commits and waits.\<close>

fun on_comm :: "comm \<Rightarrow> 'a event \<Rightarrow> bool" where
  "on_comm c (SendRecv c' x buf) = (c = c')"
| "on_comm c (Commit c') = (c = c')"
| "on_comm c (Wait c') = (c = c')"
| "on_comm c e = False"

fun is_FwdKernel :: "'a event \<Rightarrow> bool" where
  "is_FwdKernel (FwdKernel m a) = True"
| "is_FwdKernel e = False"

fun is_BwdKernel :: "'a event \<Rightarrow> bool" where
  "is_BwdKernel (BwdKernel m a) = True"
| "is_BwdKernel e = False"

fun is_LseSlice :: "'a event \<Rightarrow> bool" where
  "is_LseSlice LseSlice = True"
| "is_LseSlice e = False"

text \<open>
  The K (or V) block that a rank holds during step \<open>s\<close>: its own at step 0, afterwards
  the elements that arrived during step \<open>s - 1\<close>, in a buffer like its own.
\<close>

definition held :: "'a tensor4 \<Rightarrow> (nat \<Rightarrow> idx4 \<Rightarrow> 'a) \<Rightarrow> nat \<Rightarrow> 'a tensor4" where
  "held t incoming s = (if s = 0 then t else t\<lparr>elems := incoming (s - 1)\<rparr>)"

subsection \<open>A small ring to run\<close>

text \<open>
  Integers for numbers, kernels that return the constant 1 everywhere, a merge whose
  weights are 1 and whose log-sum-exp is a sum.
\<close>

definition toy_env :: "int env" where
  "toy_env =
     \<lparr>fwd_kernel = (\<lambda>impl a. (\<lambda>i. 1, \<lambda>i. 1)),
      bwd_kernel = (\<lambda>impl a. (\<lambda>i. 1, \<lambda>i. 1, \<lambda>i. 1)),
      cast = (\<lambda>dt x. x),
      uninit = (\<lambda>i. 0),
      logaddexp = (\<lambda>x y. x + y),
      exp_sub = (\<lambda>x y. 1)\<rparr>"

definition toy_block :: "int \<Rightarrow> int tensor4" where
  "toy_block c = \<lparr>dtype = BFloat16, shape = (1, 2, 1, 1), elems = (\<lambda>i. c)\<rparr>"

definition toy_lse :: "int tensor3" where
  "toy_lse = \<lparr>dtype = Float32, shape = (1, 1, 2), elems = (\<lambda>i. 0)\<rparr>"

definition toy_hp :: "int hparams" where
  "toy_hp =
     \<lparr>hp_softmax_scale = 1, hp_dropout_p = 0, hp_causal = True, hp_window_size = (- 1, - 1),
      hp_softcap = 0, hp_alibi_slopes = None, hp_deterministic = False, hp_attn_type = FA\<rparr>"

definition toy_pg :: "nat \<Rightarrow> nat \<Rightarrow> process_group" where
  "toy_pg P r = \<lparr>pg_world_size = P, pg_rank = r\<rparr>"

definition toy_inbox :: "nat \<Rightarrow> (idx4 \<Rightarrow> int) \<times> (idx4 \<Rightarrow> int)" where
  "toy_inbox s = (\<lambda>i. 5, \<lambda>i. 6)"

definition toy_arrivals :: "nat \<Rightarrow> int arrival" where
  "toy_arrivals s = \<lparr>ar_k = (\<lambda>i. 5), ar_v = (\<lambda>i. 6), ar_dk = (\<lambda>i. 10), ar_dv = (\<lambda>i. 20)\<rparr>"

definition toy_kwargs :: "int kwargs" where
  "toy_kwargs =
     \<lparr>kw_dropout_p = None, kw_softmax_scale = None, kw_causal = None, kw_window_size = None,
      kw_softcap = None, kw_alibi_slopes = None, kw_deterministic = None,
      kw_return_attn_probs = None, kw_group = None, kw_attn_type = None\<rparr>"

text \<open>The events of step \<open>s\<close> of the forward pass of a rank that holds \<open>k\<close> and \<open>v\<close>.\<close>

definition fwd_events ::
  "process_group \<Rightarrow> 'a hparams \<Rightarrow> 'a tensor4 \<Rightarrow> 'a tensor4 \<Rightarrow> 'a tensor4 \<Rightarrow> nat \<Rightarrow> 'a event list" where
  "fwd_events pg hp q k v s =
     (if s + 1 \<noteq> pg_world_size pg
      then [SendRecv Comm k None, SendRecv Comm v None, Commit Comm] else [])
     @ (if s \<le> pg_rank pg
        then [FwdKernel Full (fwd_call hp q k v), Merge None]
        else [FwdKernel Shifted (fwd_call hp (rows_from1 q) (rows_to_last k) (rows_to_last v)),
              Merge (Some 1)])
     @ (if s + 1 \<noteq> pg_world_size pg then [Wait Comm] else [])"

subsection \<open>Invariants of the backward loop\<close>

text \<open>Two tensors of the same dtype and shape.\<close>

definition same_type :: "('i, 'a) tensor \<Rightarrow> ('i, 'a) tensor \<Rightarrow> bool" where
  "same_type x y \<longleftrightarrow> dtype x = dtype y \<and> shape x = shape y"

text \<open>
  What every statement of the loop preserves: the store only grows, and no tensor in
  it changes its dtype or shape.
\<close>

definition typed_step :: "'a bwd_state \<Rightarrow> 'a bwd_state \<Rightarrow> bool" where
  "typed_step st st' \<longleftrightarrow>
     bs_free st \<le> bs_free st' \<and>
     (\<forall>a < bs_free st. same_type (bs_heap st' a) (bs_heap st a))"

text \<open>The kernel call of a step, given the block buffers that it finds.\<close>

definition bwd_kernel_call ::
  "process_group \<Rightarrow> 'a hparams \<Rightarrow> 'a tensor4 \<Rightarrow> 'a tensor4 \<Rightarrow> 'a tensor4 \<Rightarrow> 'a tensor3 \<Rightarrow> nat \<Rightarrow>
     'a tensor4 \<Rightarrow> 'a tensor4 \<Rightarrow> 'a tensor4 \<Rightarrow> 'a tensor4 \<Rightarrow> 'a tensor4 \<Rightarrow> 'a bwd_args" where
  "bwd_kernel_call pg hp dout q out softmax_lse s k v bq bk bv =
     (if s \<le> pg_rank pg
      then bwd_call hp dout q k v out softmax_lse bq bk bv
      else bwd_call hp (rows_from1 dout) (rows_from1 q) (rows_to_last k) (rows_to_last v)
             (rows_from1 out) (lse_from1 softmax_lse)
             (rows_from1 bq) (rows_to_last bk) (rows_to_last bv))"

text \<open>The dtypes of at least 32 bits.\<close>

definition wide :: "dtype \<Rightarrow> bool" where
  "wide d \<longleftrightarrow> d = Float32 \<or> d = Float64"

text \<open>A variable that is \<^verbatim>\<open>None\<close> or names a tensor of the store, of at least 32 bits.\<close>

definition ptr_ok :: "'a bwd_state \<Rightarrow> nat option \<Rightarrow> bool" where
  "ptr_ok st p \<longleftrightarrow> (case p of None \<Rightarrow> True | Some a \<Rightarrow> a < bs_free st \<and> wide (dtype (bs_heap st a)))"

text \<open>
  The events of step \<open>s\<close> of the backward pass of a rank that holds \<open>k\<close> and \<open>v\<close> and
  whose block buffers are \<open>bq\<close>, \<open>bk\<close> and \<open>bv\<close>; \<open>sends\<close> are the events of lines
  189--191.
\<close>

definition bwd_events ::
  "process_group \<Rightarrow> 'a hparams \<Rightarrow> 'a tensor4 \<Rightarrow> 'a tensor4 \<Rightarrow> 'a tensor4 \<Rightarrow> 'a tensor3 \<Rightarrow> nat \<Rightarrow>
     'a tensor4 \<Rightarrow> 'a tensor4 \<Rightarrow> 'a tensor4 \<Rightarrow> 'a tensor4 \<Rightarrow> 'a tensor4 \<Rightarrow> 'a event list \<Rightarrow>
     'a event list" where
  "bwd_events pg hp dout q out softmax_lse s k v bq bk bv sends =
     (if s + 1 \<noteq> pg_world_size pg
      then [SendRecv KV_comm k None, SendRecv KV_comm v None, Commit KV_comm] else [])
     @ (if s \<le> pg_rank pg then [] else [LseSlice])
     @ [BwdKernel (if s \<le> pg_rank pg then Full else Shifted)
          (bwd_kernel_call pg hp dout q out softmax_lse s k v bq bk bv)]
     @ (if s = 0 then [] else [Wait D_KV_comm])
     @ (if s + 1 \<noteq> pg_world_size pg then [Wait KV_comm] else [])
     @ sends"

text \<open>The state of the backward loop after \<open>n\<close> iterations, as far as control needs it.\<close>

definition bwd_ok ::
  "process_group \<Rightarrow> (nat \<Rightarrow> 'a arrival) \<Rightarrow> 'a tensor4 \<Rightarrow> 'a tensor4 \<Rightarrow> 'a tensor4 \<Rightarrow> nat \<Rightarrow>
     'a bwd_state \<Rightarrow> bool" where
  "bwd_ok pg arrivals q k v n st \<longleftrightarrow>
     bs_error st = None \<and> bs_events st = [] \<and> 3 \<le> bs_free st \<and>
     same_type (bs_heap st block_dq_buffer) q \<and>
     same_type (bs_heap st block_dk_buffer) k \<and>
     same_type (bs_heap st block_dv_buffer) v \<and>
     (bs_dq st = None) = (n = 0) \<and>
     (0 < n \<longrightarrow> bs_dk st \<noteq> None \<and> bs_dv st \<noteq> None \<and>
                bs_next_dk st \<noteq> None \<and> bs_next_dv st \<noteq> None) \<and>
     (\<forall>a. bs_dq st = Some a \<longrightarrow> a < bs_free st \<and> dtype (bs_heap st a) = Float32) \<and>
     ptr_ok st (bs_dk st) \<and> ptr_ok st (bs_dv st) \<and>
     ptr_ok st (bs_next_dk st) \<and> ptr_ok st (bs_next_dv st) \<and>
     ptr_ok st (bs_dk_comm_buffer st) \<and> ptr_ok st (bs_dv_comm_buffer st) \<and>
     (n < pg_world_size pg \<longrightarrow>
        bs_k st = held k (\<lambda>s. ar_k (arrivals s)) n \<and>
        bs_v st = held v (\<lambda>s. ar_v (arrivals s)) n)"

text \<open>The log of the first \<open>n\<close> iterations.\<close>

definition bwd_logged ::
  "process_group \<Rightarrow> 'a hparams \<Rightarrow> (nat \<Rightarrow> 'a arrival) \<Rightarrow> 'a tensor4 \<Rightarrow> 'a tensor4 \<Rightarrow> 'a tensor4 \<Rightarrow>
     'a tensor4 \<Rightarrow> 'a tensor4 \<Rightarrow> 'a tensor3 \<Rightarrow> nat \<Rightarrow> 'a event list \<Rightarrow> bool" where
  "bwd_logged pg hp arrivals dout q k v out softmax_lse s es \<longleftrightarrow>
     (\<exists>bq bk bv x bx y by.
        es = bwd_events pg hp dout q out softmax_lse s
               (held k (\<lambda>s. ar_k (arrivals s)) s) (held v (\<lambda>s. ar_v (arrivals s)) s)
               bq bk bv
               [SendRecv D_KV_comm x bx, SendRecv D_KV_comm y by, Commit D_KV_comm] \<and>
        same_type bq q \<and> same_type bk k \<and> same_type bv v)"

text \<open>A query block whose last axis is empty, and positional-bias slopes.\<close>

definition toy_q0 :: "int tensor4" where
  "toy_q0 = \<lparr>dtype = BFloat16, shape = (1, 2, 1, 0), elems = (\<lambda>i. 1)\<rparr>"

definition toy_alibi :: "(nat \<times> nat, int) tensor" where
  "toy_alibi = \<lparr>dtype = Float32, shape = (1, 1), elems = (\<lambda>i. 1)\<rparr>"

text \<open>
  What a call of an entry point raises when it does not pass \<^verbatim>\<open>causal=True\<close>, for a
  query block of head dimension \<open>d\<close>.
\<close>

definition default_call_error :: "'a kwargs \<Rightarrow> nat \<Rightarrow> error" where
  "default_call_error kw d =
     (if kw_softmax_scale kw = None \<and> d = 0 then ZeroDivisionError
      else if kw_alibi_slopes kw \<noteq> None then AssertionError []
      else AssertionError forward_causal_message)"

text \<open>The size of axis 2 and of the last axis of a packed tensor.\<close>

definition packed_size :: "'a tensor5 \<Rightarrow> nat" where
  "packed_size t = (case shape t of (b, s, n, h, d) \<Rightarrow> n)"

definition packed_head_dim :: "'a tensor5 \<Rightarrow> nat" where
  "packed_head_dim t = (case shape t of (b, s, n, h, d) \<Rightarrow> d)"

subsection \<open>The gradients of K and V\<close>







text \<open>
  The state of \<^verbatim>\<open>stripe_flash_attn_backward\<close> at its \<^verbatim>\<open>return\<close>, line 195: after the
  loop and the wait of line 193.
\<close>

definition bwd_final ::
  "('a::plus) env \<Rightarrow> process_group \<Rightarrow> 'a hparams \<Rightarrow> (nat \<Rightarrow> 'a arrival) \<Rightarrow>
     'a tensor4 \<Rightarrow> 'a tensor4 \<Rightarrow> 'a tensor4 \<Rightarrow> 'a tensor4 \<Rightarrow> 'a tensor4 \<Rightarrow> 'a tensor3 \<Rightarrow>
     'a bwd_state" where
  "bwd_final env pg hp arrivals dout q k v out softmax_lse =
     (let ar = arrivals (pg_world_size pg)
      in wait_d_kv (ar_dk ar) (ar_dv ar)
           (bwd_loop env pg hp arrivals dout q k v out softmax_lse (pg_world_size pg)))"

subsection \<open>The ranks of a ring in lockstep\<close>


definition peer :: "nat \<Rightarrow> nat \<Rightarrow> process_group" where
  "peer P r = \<lparr>pg_world_size = P, pg_rank = r\<rparr>"













section \<open>Properties\<close>

subsection \<open>The forward loop\<close>

lemma fwd_loop_Suc:
  "fwd_loop env pg hp inbox q k v (Suc n) =
     fwd_step env pg hp inbox q n (fwd_loop env pg hp inbox q k v n)"
  by (simp add: fwd_loop_def)

lemma fwd_loop_0: "fwd_loop env pg hp inbox q k v 0 = fwd_init k v"
  by (simp add: fwd_loop_def)

lemma fwd_compute_events:
  "fst (fwd_compute env pg hp q s k v running) =
     (if s \<le> pg_rank pg
      then [FwdKernel Full (fwd_call hp q k v), Merge None]
      else [FwdKernel Shifted (fwd_call hp (rows_from1 q) (rows_to_last k) (rows_to_last v)),
            Merge (Some 1)])"
  by (simp add: fwd_compute_def Let_def split: prod.splits)

text \<open>Before the last step, the rank holds what arrived in the step before.\<close>

lemma fwd_loop_kv:
  "n < pg_world_size pg \<Longrightarrow>
     fs_k (fwd_loop env pg hp inbox q k v n) = held k (\<lambda>s. fst (inbox s)) n \<and>
     fs_v (fwd_loop env pg hp inbox q k v n) = held v (\<lambda>s. snd (inbox s)) n"
proof (induction n)
  case 0
  show ?case by (simp add: fwd_loop_0 fwd_init_def held_def)
next
  case (Suc n)
  then have IH: "fs_k (fwd_loop env pg hp inbox q k v n) = held k (\<lambda>s. fst (inbox s)) n"
     "fs_v (fwd_loop env pg hp inbox q k v n) = held v (\<lambda>s. snd (inbox s)) n" by simp_all
  from Suc.prems have nl: "n + 1 \<noteq> pg_world_size pg" by simp
  show ?case using nl
    by (simp add: fwd_loop_Suc fwd_step_def Let_def IH held_def filled_def empty_like_def
             split: prod.splits)
qed

lemma fwd_step_log:
  "fs_log (fwd_step env pg hp inbox q s st) =
     fs_log st @ [fwd_events pg hp q (fs_k st) (fs_v st) s]"
  using fwd_compute_events[of env pg hp q s "fs_k st" "fs_v st" "fs_running st"]
  by (cases "fwd_compute env pg hp q s (fs_k st) (fs_v st) (fs_running st)")
     (simp add: fwd_step_def Let_def fwd_events_def)

lemma fwd_loop_log:
  "n \<le> pg_world_size pg \<Longrightarrow>
     fs_log (fwd_loop env pg hp inbox q k v n) =
       map (\<lambda>s. fwd_events pg hp q (held k (\<lambda>s. fst (inbox s)) s)
                  (held v (\<lambda>s. snd (inbox s)) s) s) [0..<n]"
proof (induction n)
  case 0
  show ?case by (simp add: fwd_loop_0 fwd_init_def)
next
  case (Suc n)
  then have "n < pg_world_size pg" by simp
  then have "fs_k (fwd_loop env pg hp inbox q k v n) = held k (\<lambda>s. fst (inbox s)) n"
    and "fs_v (fwd_loop env pg hp inbox q k v n) = held v (\<lambda>s. snd (inbox s)) n"
    using fwd_loop_kv by blast+
  with Suc show ?case
    by (simp add: fwd_loop_Suc fwd_step_log)
qed

lemma fwd_log:
  "hp_causal hp \<Longrightarrow>
   snd (stripe_flash_attn_forward env pg inbox q k v hp) =
     map (\<lambda>s. fwd_events pg hp q (held k (\<lambda>s. fst (inbox s)) s)
                (held v (\<lambda>s. snd (inbox s)) s) s)
       [0..<pg_world_size pg]"
  by (simp add: stripe_flash_attn_forward_def Let_def fwd_loop_log
           split: option.splits prod.splits)

subsection \<open>C1: the mode of a forward step\<close>

text \<open>
  Claim C1. In a run of \<^verbatim>\<open>stripe_flash_attn_forward\<close> on rank \<open>r\<close> of a ring of \<open>P\<close>
  ranks, every step \<open>s < P\<close> makes exactly one kernel call, with causal masking on.
  When \<open>s \<le> r\<close> the call is the one of the Full branch, on the whole local Q and the
  whole K and V held at that step; when \<open>s > r\<close> it is the one of the Shifted branch,
  on rows \<open>[1, end)\<close> of Q and rows \<open>[0, end - 1)\<close> of the K and V held at that step.
\<close>

theorem forward_mode:
  assumes "hp_causal hp" and "s < pg_world_size pg"
  shows "\<exists>m a. filter is_FwdKernel (snd (stripe_flash_attn_forward env pg inbox q k v hp) ! s)
                 = [FwdKernel m a] \<and>
           fa_causal a \<and>
           (if s \<le> pg_rank pg
            then m = Full \<and> fa_q a = q \<and>
                 fa_k a = held k (\<lambda>s. fst (inbox s)) s \<and>
                 fa_v a = held v (\<lambda>s. snd (inbox s)) s
            else m = Shifted \<and> fa_q a = rows_from1 q \<and>
                 fa_k a = rows_to_last (held k (\<lambda>s. fst (inbox s)) s) \<and>
                 fa_v a = rows_to_last (held v (\<lambda>s. snd (inbox s)) s))"
  using assms by (simp add: fwd_log fwd_events_def fwd_call_def)

text \<open>Rank 0 of a ring of two, step 1: the Shifted branch.\<close>

theorem forward_mode_witness:
  "hp_causal toy_hp \<and> 1 < pg_world_size (toy_pg 2 0) \<and>
   (\<exists>m a. filter is_FwdKernel
             (snd (stripe_flash_attn_forward toy_env (toy_pg 2 0) toy_inbox
                     (toy_block 1) (toy_block 2) (toy_block 3) toy_hp) ! 1)
             = [FwdKernel m a] \<and>
           fa_causal a \<and> m = Shifted \<and> fa_q a = rows_from1 (toy_block 1) \<and>
           fa_k a = rows_to_last (held (toy_block 2) (\<lambda>s. fst (toy_inbox s)) 1) \<and>
           fa_v a = rows_to_last (held (toy_block 3) (\<lambda>s. snd (toy_inbox s)) 1))"
  using forward_mode[of toy_hp 1 "toy_pg 2 0" toy_env toy_inbox
                        "toy_block 1" "toy_block 2" "toy_block 3"]
  by (simp add: toy_hp_def toy_pg_def)

subsection \<open>C2: a Shifted step leaves row 0 of the running pair alone\<close>

lemma fwd_step_running:
  "fs_running (fwd_step env pg hp inbox q s st) =
     Some (snd (fwd_compute env pg hp q s (fs_k st) (fs_v st) (fs_running st)))"
  by (simp add: fwd_step_def Let_def split: prod.splits)

lemma fwd_loop_running_Some:
  "0 < n \<Longrightarrow> \<exists>out lse. fs_running (fwd_loop env pg hp inbox q k v n) = Some (out, lse)"
  by (cases n) (auto simp: fwd_loop_Suc fwd_step_running intro: prod.exhaust)

lemma update_shifted_row0:
  "update_out_and_lse env (Some (out, lse)) block_out block_lse (Some 1) = (out', lse') \<Longrightarrow>
     elems out' (b, 0, h, d) = elems out (b, 0, h, d) \<and>
     elems lse' (b, 0, h, d) = elems lse (b, 0, h, d) \<and>
     shape out' = shape out \<and> shape lse' = shape lse \<and>
     dtype out' = dtype out \<and> dtype lse' = dtype lse"
  by (auto simp: update_out_and_lse_def Let_def)

text \<open>
  Claim C2. At every step \<open>s\<close> of the forward loop that runs in Shifted mode
  (\<open>rank < s < P\<close>) the running pair exists, the merge is the one with
  \<^verbatim>\<open>slice_ = (slice(None), slice(1, None))\<close> of the block computed from the sliced
  Q, K and V, and row 0 of the running output and of the running log-sum-exp is
  after the step what it was before; the shapes do not change.
\<close>

theorem shifted_merge_row0:
  assumes "pg_rank pg < s" and "s < pg_world_size pg"
  shows "\<exists>out lse out' lse' block_out block_lse.
           fs_running (fwd_loop env pg hp inbox q k v s) = Some (out, lse) \<and>
           fs_running (fwd_loop env pg hp inbox q k v (Suc s)) = Some (out', lse') \<and>
           (block_out, block_lse) =
              call_fwd_kernel env (hp_attn_type hp)
                (fwd_call hp (rows_from1 q)
                   (rows_to_last (held k (\<lambda>s. fst (inbox s)) s))
                   (rows_to_last (held v (\<lambda>s. snd (inbox s)) s))) \<and>
           (out', lse') = update_out_and_lse env (Some (out, lse)) block_out block_lse (Some 1) \<and>
           (\<forall>b h d. elems out' (b, 0, h, d) = elems out (b, 0, h, d) \<and>
                    elems lse' (b, 0, h, d) = elems lse (b, 0, h, d)) \<and>
           shape out' = shape out \<and> shape lse' = shape lse"
proof -
  from assms have "0 < s" by simp
  then obtain out lse where r: "fs_running (fwd_loop env pg hp inbox q k v s) = Some (out, lse)"
    using fwd_loop_running_Some by blast
  have kv: "fs_k (fwd_loop env pg hp inbox q k v s) = held k (\<lambda>s. fst (inbox s)) s"
     "fs_v (fwd_loop env pg hp inbox q k v s) = held v (\<lambda>s. snd (inbox s)) s"
    using fwd_loop_kv[OF assms(2)] by blast+
  obtain block_out block_lse where blk: "(block_out, block_lse) =
              call_fwd_kernel env (hp_attn_type hp)
                (fwd_call hp (rows_from1 q)
                   (rows_to_last (held k (\<lambda>s. fst (inbox s)) s))
                   (rows_to_last (held v (\<lambda>s. snd (inbox s)) s)))"
    by (metis surj_pair)
  obtain out' lse' where u: "update_out_and_lse env (Some (out, lse)) block_out block_lse (Some 1) = (out', lse')"
    by (metis surj_pair)
  have r': "fs_running (fwd_loop env pg hp inbox q k v (Suc s)) = Some (out', lse')"
    using assms(1) r kv blk[symmetric] u
    by (simp add: fwd_loop_Suc fwd_step_running fwd_compute_def Let_def)
  have f: "\<forall>b h d. elems out' (b, 0, h, d) = elems out (b, 0, h, d) \<and>
                    elems lse' (b, 0, h, d) = elems lse (b, 0, h, d)"
    "shape out' = shape out" "shape lse' = shape lse"
    using update_shifted_row0[OF u] by auto
  show ?thesis using r r' blk u[symmetric] f by blast
qed


text \<open>
  Rank 0 of a ring of two, step 1, with the kernel that returns 1 everywhere: row 0
  of the running output stays 1, row 1 goes from 1 to 2.
\<close>

lemma toy_elems_first:
  "update_out_and_lse toy_env None block_out block_lse None = (out, lse) \<Longrightarrow>
   dtype block_out = BFloat16 \<Longrightarrow> elems block_out = (\<lambda>i. 1) \<Longrightarrow>
     elems out (b, s, h, d) = 1"
  by (auto simp: update_out_and_lse_def to_dtype_def toy_env_def split: prod.splits)

lemma toy_elems_next:
  "update_out_and_lse toy_env (Some (out, lse)) block_out block_lse (Some 1) = (out', lse') \<Longrightarrow>
   elems block_out = (\<lambda>i. 1) \<Longrightarrow>
     elems out' (b, Suc s, h, d) = elems out (b, Suc s, h, d) + 1"
  by (auto simp: update_out_and_lse_def toy_env_def block_out_at_def)

theorem shifted_merge_row0_witness:
  "pg_rank (toy_pg 2 0) < 1 \<and> 1 < pg_world_size (toy_pg 2 0) \<and>
   (\<exists>out lse out' lse'.
      fs_running (fwd_loop toy_env (toy_pg 2 0) toy_hp toy_inbox
                    (toy_block 1) (toy_block 2) (toy_block 3) 1) = Some (out, lse) \<and>
      fs_running (fwd_loop toy_env (toy_pg 2 0) toy_hp toy_inbox
                    (toy_block 1) (toy_block 2) (toy_block 3) 2) = Some (out', lse') \<and>
      (\<forall>b h d. elems out' (b, 0, h, d) = elems out (b, 0, h, d) \<and>
               elems lse' (b, 0, h, d) = elems lse (b, 0, h, d)) \<and>
      elems out (0, 0, 0, 0) = 1 \<and> elems out' (0, 0, 0, 0) = 1 \<and>
      elems out (0, 1, 0, 0) = 1 \<and> elems out' (0, 1, 0, 0) = 2)"
proof -
  let ?loop = "fwd_loop toy_env (toy_pg 2 0) toy_hp toy_inbox
                    (toy_block 1) (toy_block 2) (toy_block 3)"
  have h: "pg_rank (toy_pg 2 0) < 1" "1 < pg_world_size (toy_pg 2 0)"
    by (simp_all add: toy_pg_def)
  from shifted_merge_row0[OF h, of toy_env toy_hp toy_inbox "toy_block 1" "toy_block 2" "toy_block 3"]
  obtain out lse out' lse' block_out block_lse where
    r: "fs_running (?loop 1) = Some (out, lse)" and
    r': "fs_running (?loop (Suc 1)) = Some (out', lse')" and
    blk: "(block_out, block_lse) =
              call_fwd_kernel toy_env (hp_attn_type toy_hp)
                (fwd_call toy_hp (rows_from1 (toy_block 1))
                   (rows_to_last (held (toy_block 2) (\<lambda>s. fst (toy_inbox s)) 1))
                   (rows_to_last (held (toy_block 3) (\<lambda>s. snd (toy_inbox s)) 1)))" and
    u: "(out', lse') = update_out_and_lse toy_env (Some (out, lse)) block_out block_lse (Some 1)" and
    f: "\<forall>b h d. elems out' (b, 0, h, d) = elems out (b, 0, h, d) \<and>
               elems lse' (b, 0, h, d) = elems lse (b, 0, h, d)"
    by blast
  obtain b0 l0 where blk0: "call_fwd_kernel toy_env (hp_attn_type toy_hp)
       (fwd_call toy_hp (toy_block 1) (toy_block 2) (toy_block 3)) = (b0, l0)"
    by (metis surj_pair)
  have b0: "dtype b0 = BFloat16" "elems b0 = (\<lambda>i. 1)"
    using blk0 by (auto simp: call_fwd_kernel_def fwd_call_def toy_block_def toy_env_def)
  have "fs_running (?loop 1) = Some (update_out_and_lse toy_env None b0 l0 None)"
    using blk0 by (simp add: fwd_loop_Suc fwd_loop_0 fwd_step_running fwd_init_def fwd_compute_def toy_pg_def)
  with r have u0: "update_out_and_lse toy_env None b0 l0 None = (out, lse)" by simp
  have o: "elems out (b, s, h, d) = 1" for b s h d
    using toy_elems_first[OF u0 b0] .
  have bo: "elems block_out = (\<lambda>i. 1)"
    using blk by (auto simp: call_fwd_kernel_def toy_env_def split: prod.splits)
  have o': "elems out' (b, Suc s, h, d) = elems out (b, Suc s, h, d) + 1" for b s h d
    using toy_elems_next[OF u[symmetric] bo] .
  have "elems out (0, 0, 0, 0) = 1" "elems out (0, 1, 0, 0) = 1" using o by simp_all
  moreover have "elems out' (0, 1, 0, 0) = 2" using o'[of 0 0 0 0] o by simp
  moreover have "elems out' (0, 0, 0, 0) = 1" using f o by simp
  ultimately show ?thesis using h r r' f by (auto simp: numeral_2_eq_2)
qed

subsection \<open>The backward loop: one iteration\<close>

lemma same_type_refl [simp]: "same_type x x"
  by (simp add: same_type_def)

lemma same_type_write [simp]:
  "same_type (write_all x e) y = same_type x y"
  "same_type (write_rows_from1 x e) y = same_type x y"
  "same_type (write_rows_to_last x e) y = same_type x y"
  "same_type (filled x e) y = same_type x y"
  by (auto simp: same_type_def write_all_def write_rows_from1_def write_rows_to_last_def
      filled_def split: prod.splits)

lemma same_type_add [simp]:
  "same_type (add_inplace x z) y = same_type x y"
  "same_type (add_rows_from1 x z) y = same_type x y"
  "same_type (add_rows_to_last x z) y = same_type x y"
  by (auto simp: same_type_def add_inplace_def add_rows_from1_def add_rows_to_last_def
      split: prod.splits)

lemma typed_step_refl [simp]: "typed_step st st"
  by (simp add: typed_step_def)

lemma typed_step_trans: "typed_step a b \<Longrightarrow> typed_step b c \<Longrightarrow> typed_step a c"
  by (auto simp: typed_step_def same_type_def)

lemma bwd_fetch_facts:
  "bs_error (bwd_fetch env pg s st) = bs_error st"
  "bs_heap (bwd_fetch env pg s st) = bs_heap st"
  "bs_free (bwd_fetch env pg s st) = bs_free st"
  "bs_k (bwd_fetch env pg s st) = bs_k st"
  "bs_v (bwd_fetch env pg s st) = bs_v st"
  "bs_dq (bwd_fetch env pg s st) = bs_dq st"
  "bs_dk (bwd_fetch env pg s st) = bs_dk st"
  "bs_dv (bwd_fetch env pg s st) = bs_dv st"
  "bs_next_dk (bwd_fetch env pg s st) = bs_next_dk st"
  "bs_next_dv (bwd_fetch env pg s st) = bs_next_dv st"
  "bs_dk_comm_buffer (bwd_fetch env pg s st) = bs_dk_comm_buffer st"
  "bs_dv_comm_buffer (bwd_fetch env pg s st) = bs_dv_comm_buffer st"
  "bs_log (bwd_fetch env pg s st) = bs_log st"
  "bs_events (bwd_fetch env pg s st) = bs_events st @
     (if s + 1 \<noteq> pg_world_size pg
      then [SendRecv KV_comm (bs_k st) None, SendRecv KV_comm (bs_v st) None, Commit KV_comm]
      else [])"
  "s + 1 \<noteq> pg_world_size pg \<Longrightarrow>
     bs_next_k (bwd_fetch env pg s st) = Some (empty_like env (bs_k st)) \<and>
     bs_next_v (bwd_fetch env pg s st) = Some (empty_like env (bs_v st))"
  by (simp_all add: bwd_fetch_def emit_def)

lemma bwd_compute_facts:
  fixes st :: "'a bwd_state" and env pg hp dout q out softmax_lse s
  defines "st' \<equiv> bwd_compute env pg hp dout q out softmax_lse s st"
  shows
  "bs_error st' = bs_error st"
  "bs_free st' = bs_free st"
  "bs_k st' = bs_k st"
  "bs_v st' = bs_v st"
  "bs_dq st' = bs_dq st"
  "bs_dk st' = bs_dk st"
  "bs_dv st' = bs_dv st"
  "bs_next_dk st' = bs_next_dk st"
  "bs_next_dv st' = bs_next_dv st"
  "bs_next_k st' = bs_next_k st"
  "bs_next_v st' = bs_next_v st"
  "bs_dk_comm_buffer st' = bs_dk_comm_buffer st"
  "bs_dv_comm_buffer st' = bs_dv_comm_buffer st"
  "bs_log st' = bs_log st"
  "bs_events st' = bs_events st @
     (if s \<le> pg_rank pg then [] else [LseSlice]) @
     [BwdKernel (if s \<le> pg_rank pg then Full else Shifted)
        (bwd_kernel_call pg hp dout q out softmax_lse s (bs_k st) (bs_v st)
           (bs_heap st block_dq_buffer) (bs_heap st block_dk_buffer) (bs_heap st block_dv_buffer))]"
  "same_type (bs_heap st' a) (bs_heap st a)"
  unfolding st'_def
  by (simp_all add: bwd_compute_def Let_def emit_def lazy_lse_1_def bwd_kernel_call_def raise_def
        block_dq_buffer_def block_dk_buffer_def block_dv_buffer_def
        split: prod.splits)

lemma alloc_facts:
  "alloc t st = (a, st') \<Longrightarrow>
     a = bs_free st \<and> bs_free st' = Suc (bs_free st) \<and> bs_heap st' = (bs_heap st)(a := t) \<and>
     bs_error st' = bs_error st \<and> bs_events st' = bs_events st \<and> bs_log st' = bs_log st \<and>
     bs_k st' = bs_k st \<and> bs_v st' = bs_v st \<and> bs_dq st' = bs_dq st \<and>
     bs_dk st' = bs_dk st \<and> bs_dv st' = bs_dv st \<and>
     bs_next_dk st' = bs_next_dk st \<and> bs_next_dv st' = bs_next_dv st \<and>
     bs_next_k st' = bs_next_k st \<and> bs_next_v st' = bs_next_v st \<and>
     bs_dk_comm_buffer st' = bs_dk_comm_buffer st \<and> bs_dv_comm_buffer st' = bs_dv_comm_buffer st"
  by (auto simp: alloc_def)

lemma alloc_typed: "alloc t st = (a, st') \<Longrightarrow> typed_step st st'"
  by (auto simp: alloc_def typed_step_def)

lemma to_float32_facts:
  "to_float32 env x st = (a, st') \<Longrightarrow> x < bs_free st \<Longrightarrow>
     a < bs_free st' \<and> dtype (bs_heap st' a) = Float32 \<and> shape (bs_heap st' a) = shape (bs_heap st x) \<and>
     typed_step st st' \<and>
     bs_error st' = bs_error st \<and> bs_events st' = bs_events st \<and> bs_log st' = bs_log st \<and>
     bs_k st' = bs_k st \<and> bs_v st' = bs_v st \<and>
     bs_next_dk st' = bs_next_dk st \<and> bs_next_dv st' = bs_next_dv st \<and>
     bs_next_k st' = bs_next_k st \<and> bs_next_v st' = bs_next_v st \<and>
     bs_dk_comm_buffer st' = bs_dk_comm_buffer st \<and> bs_dv_comm_buffer st' = bs_dv_comm_buffer st"
  by (auto simp: to_float32_def alloc_def typed_step_def to_dtype_def split: if_splits)

lemma bwd_init_grads_facts:
  fixes st :: "'a bwd_state" and env
  assumes "3 \<le> bs_free st"
  defines "st' \<equiv> bwd_init_grads env st"
  shows "bs_error st' = bs_error st" "bs_events st' = bs_events st" "bs_log st' = bs_log st"
    "bs_k st' = bs_k st" "bs_v st' = bs_v st"
    "bs_next_dk st' = bs_next_dk st" "bs_next_dv st' = bs_next_dv st"
    "bs_next_k st' = bs_next_k st" "bs_next_v st' = bs_next_v st"
    "bs_dk_comm_buffer st' = bs_dk_comm_buffer st" "bs_dv_comm_buffer st' = bs_dv_comm_buffer st"
    "typed_step st st'"
    "\<exists>dq dk dv. bs_dq st' = Some dq \<and> bs_dk st' = Some dk \<and> bs_dv st' = Some dv \<and>
        dq < bs_free st' \<and> dk < bs_free st' \<and> dv < bs_free st' \<and>
        dtype (bs_heap st' dq) = Float32 \<and> dtype (bs_heap st' dk) = Float32 \<and>
        dtype (bs_heap st' dv) = Float32"
proof -
  obtain dq st1 where 1: "to_float32 env block_dq_buffer st = (dq, st1)" by (metis surj_pair)
  obtain dk st2 where 2: "to_float32 env block_dk_buffer st1 = (dk, st2)" by (metis surj_pair)
  obtain dv st3 where 3: "to_float32 env block_dv_buffer st2 = (dv, st3)" by (metis surj_pair)
  have s': "st' = st3\<lparr>bs_dq := Some dq, bs_dk := Some dk, bs_dv := Some dv\<rparr>"
    by (simp add: st'_def bwd_init_grads_def 1 2 3)
  have f1: "block_dq_buffer < bs_free st" using assms(1) by (simp add: block_dq_buffer_def)
  note F1 = to_float32_facts[OF 1 f1]
  have f2: "block_dk_buffer < bs_free st1" using assms(1) F1
    by (simp add: block_dk_buffer_def typed_step_def)
  note F2 = to_float32_facts[OF 2 f2]
  have f3: "block_dv_buffer < bs_free st2" using assms(1) F1 F2
    by (simp add: block_dv_buffer_def typed_step_def)
  note F3 = to_float32_facts[OF 3 f3]
  show "bs_error st' = bs_error st" "bs_events st' = bs_events st" "bs_log st' = bs_log st"
    "bs_k st' = bs_k st" "bs_v st' = bs_v st"
    "bs_next_dk st' = bs_next_dk st" "bs_next_dv st' = bs_next_dv st"
    "bs_next_k st' = bs_next_k st" "bs_next_v st' = bs_next_v st"
    "bs_dk_comm_buffer st' = bs_dk_comm_buffer st" "bs_dv_comm_buffer st' = bs_dv_comm_buffer st"
    using F1 F2 F3 by (simp_all add: s')
  have t13: "typed_step st st3"
    using F1 F2 F3 by (blast intro: typed_step_trans)
  then show "typed_step st st'" by (simp add: s' typed_step_def)
  have "dq < bs_free st3" "dk < bs_free st3" using F1 F2 F3 by (auto simp: typed_step_def)
  moreover have "dtype (bs_heap st3 dq) = Float32"
    using F1 F2 F3 by (auto simp: typed_step_def same_type_def dest: spec[of _ dq])
  moreover have "dtype (bs_heap st3 dk) = Float32"
    using F2 F3 by (auto simp: typed_step_def same_type_def dest: spec[of _ dk])
  ultimately show "\<exists>dq dk dv. bs_dq st' = Some dq \<and> bs_dk st' = Some dk \<and> bs_dv st' = Some dv \<and>
        dq < bs_free st' \<and> dk < bs_free st' \<and> dv < bs_free st' \<and>
        dtype (bs_heap st' dq) = Float32 \<and> dtype (bs_heap st' dk) = Float32 \<and>
        dtype (bs_heap st' dv) = Float32"
    using F3 by (simp add: s')
qed

lemma wide_promote: "wide b \<Longrightarrow> wide (promote a b)"
  by (auto simp: wide_def promote_def)

lemma ptr_ok_None [simp]: "ptr_ok st None"
  by (simp add: ptr_ok_def)

lemma ptr_ok_Some: "ptr_ok st (Some a) \<longleftrightarrow> a < bs_free st \<and> wide (dtype (bs_heap st a))"
  by (simp add: ptr_ok_def)

lemma ptr_ok_same: "bs_free st' = bs_free st \<Longrightarrow> bs_heap st' = bs_heap st \<Longrightarrow> ptr_ok st' p = ptr_ok st p"
  by (cases p) (simp_all add: ptr_ok_def)

lemma ptr_ok_log [simp]: "ptr_ok (st\<lparr>bs_events := e, bs_log := l\<rparr>) p = ptr_ok st p"
  by (rule ptr_ok_same) simp_all

lemma ptr_ok_typed: "typed_step st st' \<Longrightarrow> ptr_ok st p \<Longrightarrow> ptr_ok st' p"
  by (auto simp: ptr_ok_def typed_step_def same_type_def split: option.splits)

lemma bwd_add_dq_facts:
  fixes st :: "('a::plus) bwd_state" and sc dq
  defines "st' \<equiv> bwd_add_dq sc dq st"
  shows "bs_error st' = bs_error st" "bs_events st' = bs_events st" "bs_log st' = bs_log st"
    "bs_k st' = bs_k st" "bs_v st' = bs_v st" "bs_free st' = bs_free st"
    "bs_dq st' = bs_dq st" "bs_dk st' = bs_dk st" "bs_dv st' = bs_dv st"
    "bs_next_dk st' = bs_next_dk st" "bs_next_dv st' = bs_next_dv st"
    "bs_next_k st' = bs_next_k st" "bs_next_v st' = bs_next_v st"
    "bs_dk_comm_buffer st' = bs_dk_comm_buffer st" "bs_dv_comm_buffer st' = bs_dv_comm_buffer st"
    "same_type (bs_heap st' a) (bs_heap st a)"
  unfolding st'_def by (simp_all add: bwd_add_dq_def Let_def)

lemma wait_d_kv_facts:
  fixes st :: "'a bwd_state" and x y
  defines "st' \<equiv> wait_d_kv x y st"
  shows "bs_error st' = bs_error st" "bs_events st' = bs_events st @ [Wait D_KV_comm]"
    "bs_log st' = bs_log st"
    "bs_k st' = bs_k st" "bs_v st' = bs_v st" "bs_free st' = bs_free st"
    "bs_dq st' = bs_dq st" "bs_dk st' = bs_dk st" "bs_dv st' = bs_dv st"
    "bs_next_dk st' = bs_next_dk st" "bs_next_dv st' = bs_next_dv st"
    "bs_next_k st' = bs_next_k st" "bs_next_v st' = bs_next_v st"
    "bs_dk_comm_buffer st' = bs_dk_comm_buffer st" "bs_dv_comm_buffer st' = bs_dv_comm_buffer st"
    "same_type (bs_heap st' a) (bs_heap st a)"
  unfolding st'_def by (simp_all add: wait_d_kv_def Let_def emit_def split: option.splits)

lemma typed_stepI:
  "bs_free st' = bs_free st \<Longrightarrow> (\<And>a. same_type (bs_heap st' a) (bs_heap st a)) \<Longrightarrow> typed_step st st'"
  by (simp add: typed_step_def)

lemma bwd_add_dkv_facts:
  fixes st :: "('a::plus) bwd_state" and sc
  assumes "bs_next_dk st = Some ndk" "bs_next_dv st = Some ndv" "ptr_ok st (Some ndk)" "ptr_ok st (Some ndv)"
  defines "st' \<equiv> bwd_add_dkv sc st"
  shows "bs_error st' = bs_error st" "bs_events st' = bs_events st" "bs_log st' = bs_log st"
    "bs_k st' = bs_k st" "bs_v st' = bs_v st"
    "bs_dq st' = bs_dq st"
    "bs_next_dk st' = bs_next_dk st" "bs_next_dv st' = bs_next_dv st"
    "bs_next_k st' = bs_next_k st" "bs_next_v st' = bs_next_v st"
    "bs_dk_comm_buffer st' = bs_dk st" "bs_dv_comm_buffer st' = bs_dv st"
    "typed_step st st'"
    "bs_dk st' \<noteq> None" "bs_dv st' \<noteq> None" "ptr_ok st' (bs_dk st')" "ptr_ok st' (bs_dv st')"
  using assms(1-4) unfolding st'_def
  by (auto simp: bwd_add_dkv_def Let_def alloc_def raise_def typed_step_def ptr_ok_def add_new_def
        wide_promote add_rows_to_last_def same_type_def
      split: option.splits prod.splits)

lemma bwd_rotate_kv_facts:
  fixes st :: "'a bwd_state" and pg s ar
  assumes "s + 1 \<noteq> pg_world_size pg \<longrightarrow> bs_next_k st = Some bk \<and> bs_next_v st = Some bv"
  defines "st' \<equiv> bwd_rotate_kv pg s ar st"
  shows "bs_error st' = bs_error st"
    "bs_events st' = bs_events st @ (if s + 1 \<noteq> pg_world_size pg then [Wait KV_comm] else [])"
    "bs_log st' = bs_log st" "bs_free st' = bs_free st" "bs_heap st' = bs_heap st"
    "bs_dq st' = bs_dq st" "bs_dk st' = bs_dk st" "bs_dv st' = bs_dv st"
    "bs_next_dk st' = bs_next_dk st" "bs_next_dv st' = bs_next_dv st"
    "bs_dk_comm_buffer st' = bs_dk_comm_buffer st" "bs_dv_comm_buffer st' = bs_dv_comm_buffer st"
    "bs_k st' = (if s + 1 \<noteq> pg_world_size pg then filled bk (ar_k ar) else bs_k st)"
    "bs_v st' = (if s + 1 \<noteq> pg_world_size pg then filled bv (ar_v ar) else bs_v st)"
  using assms(1) unfolding st'_def
  by (auto simp: bwd_rotate_kv_def emit_def)

lemma send_recv_d_kv_facts:
  "send_recv_d_kv env x buf st = (a, st') \<Longrightarrow> ptr_ok st (Some x) \<Longrightarrow> ptr_ok st buf \<Longrightarrow>
     typed_step st st' \<and> ptr_ok st' (Some a) \<and>
     bs_events st' = bs_events st @ [SendRecv D_KV_comm (bs_heap st x) (map_option (bs_heap st) buf)] \<and>
     bs_error st' = bs_error st \<and> bs_log st' = bs_log st \<and>
     bs_k st' = bs_k st \<and> bs_v st' = bs_v st \<and> bs_dq st' = bs_dq st \<and>
     bs_dk st' = bs_dk st \<and> bs_dv st' = bs_dv st \<and>
     bs_next_k st' = bs_next_k st \<and> bs_next_v st' = bs_next_v st \<and>
     bs_dk_comm_buffer st' = bs_dk_comm_buffer st \<and> bs_dv_comm_buffer st' = bs_dv_comm_buffer st"
  by (cases buf)
     (auto simp: send_recv_d_kv_def Let_def alloc_def emit_def typed_step_def ptr_ok_def empty_like_def)

lemma bwd_send_grads_facts:
  fixes st :: "'a bwd_state" and env
  assumes "bs_dk st = Some dk" "bs_dv st = Some dv" "ptr_ok st (Some dk)" "ptr_ok st (Some dv)"
    "ptr_ok st (bs_dk_comm_buffer st)" "ptr_ok st (bs_dv_comm_buffer st)"
  defines "st' \<equiv> bwd_send_grads env st"
  shows "bs_error st' = bs_error st" "bs_log st' = bs_log st"
    "bs_k st' = bs_k st" "bs_v st' = bs_v st"
    "bs_dq st' = bs_dq st" "bs_dk st' = bs_dk st" "bs_dv st' = bs_dv st"
    "bs_dk_comm_buffer st' = bs_dk_comm_buffer st" "bs_dv_comm_buffer st' = bs_dv_comm_buffer st"
    "typed_step st st'"
    "bs_next_dk st' \<noteq> None" "bs_next_dv st' \<noteq> None"
    "ptr_ok st' (bs_next_dk st')" "ptr_ok st' (bs_next_dv st')"
    "\<exists>x bx y by. bs_events st' = bs_events st @
        [SendRecv D_KV_comm x bx, SendRecv D_KV_comm y by, Commit D_KV_comm]"
proof -
  obtain a st1 where 1: "send_recv_d_kv env dk (bs_dk_comm_buffer st) st = (a, st1)"
    by (metis surj_pair)
  note F1 = send_recv_d_kv_facts[OF 1 assms(3) assms(5)]
  obtain b st2 where 2: "send_recv_d_kv env dv (bs_dv_comm_buffer st1) st1 = (b, st2)"
    by (metis surj_pair)
  have p1: "ptr_ok st1 (Some dv)" "ptr_ok st1 (bs_dv_comm_buffer st1)"
    using F1 assms(4,6) by (auto intro: ptr_ok_typed)
  note F2 = send_recv_d_kv_facts[OF 2 p1]
  have s': "st' = emit [Commit D_KV_comm] (st2\<lparr>bs_next_dk := Some a, bs_next_dv := Some b\<rparr>)"
    using assms(1,2) 1 2 by (simp add: st'_def bwd_send_grads_def)
  show "bs_error st' = bs_error st" "bs_log st' = bs_log st"
    "bs_k st' = bs_k st" "bs_v st' = bs_v st"
    "bs_dq st' = bs_dq st" "bs_dk st' = bs_dk st" "bs_dv st' = bs_dv st"
    "bs_dk_comm_buffer st' = bs_dk_comm_buffer st" "bs_dv_comm_buffer st' = bs_dv_comm_buffer st"
    "bs_next_dk st' \<noteq> None" "bs_next_dv st' \<noteq> None"
    using F1 F2 by (simp_all add: s' emit_def)
  have t: "typed_step st st2" using F1 F2 by (blast intro: typed_step_trans)
  then show "typed_step st st'" by (simp add: s' emit_def typed_step_def)
  have "ptr_ok st2 (Some a)" using F1 F2 by (blast intro: ptr_ok_typed)
  then show "ptr_ok st' (bs_next_dk st')" by (simp add: s' emit_def ptr_ok_def)
  show "ptr_ok st' (bs_next_dv st')" using F2 by (simp add: s' emit_def ptr_ok_def)
  show "\<exists>x bx y by. bs_events st' = bs_events st @
        [SendRecv D_KV_comm x bx, SendRecv D_KV_comm y by, Commit D_KV_comm]"
    using F1 F2 by (simp add: s' emit_def)
qed

lemma held_Suc:
  "filled (empty_like env (held k inc n)) (inc n) = held k inc (Suc n)"
  by (simp add: held_def filled_def empty_like_def)

lemma typed_step_same:
  "typed_step st st' \<Longrightarrow> a < bs_free st \<Longrightarrow> same_type (bs_heap st a) t \<Longrightarrow>
     same_type (bs_heap st' a) t"
  by (auto simp: typed_step_def same_type_def)

lemma typed_step_dtype:
  "typed_step st st' \<Longrightarrow> a < bs_free st \<Longrightarrow> dtype (bs_heap st' a) = dtype (bs_heap st a)"
  by (auto simp: typed_step_def same_type_def)

lemma typed_step_free: "typed_step st st' \<Longrightarrow> n \<le> bs_free st \<Longrightarrow> n \<le> bs_free st'"
  by (auto simp: typed_step_def)

lemma bwd_accumulate_facts:
  fixes st :: "('a::plus) bwd_state" and env pg s ar
  assumes "3 \<le> bs_free st"
    and "(bs_dq st = None) = (s = 0)"
    and "0 < s \<longrightarrow> bs_next_dk st \<noteq> None \<and> bs_next_dv st \<noteq> None"
    and "\<forall>a. bs_dq st = Some a \<longrightarrow> a < bs_free st \<and> dtype (bs_heap st a) = Float32"
    and "ptr_ok st (bs_next_dk st)" "ptr_ok st (bs_next_dv st)"
  defines "st' \<equiv> bwd_accumulate env pg s ar st"
  shows "bs_error st' = bs_error st \<and>
    bs_events st' = bs_events st @ (if s = 0 then [] else [Wait D_KV_comm]) \<and>
    bs_log st' = bs_log st \<and>
    bs_k st' = bs_k st \<and>
    bs_v st' = bs_v st \<and>
    bs_next_dk st' = bs_next_dk st \<and>
    bs_next_dv st' = bs_next_dv st \<and>
    bs_next_k st' = bs_next_k st \<and>
    bs_next_v st' = bs_next_v st \<and>
    typed_step st st' \<and>
    bs_dq st' \<noteq> None \<and>
    bs_dk st' \<noteq> None \<and>
    bs_dv st' \<noteq> None \<and>
    (\<forall>a. bs_dq st' = Some a \<longrightarrow> a < bs_free st' \<and> dtype (bs_heap st' a) = Float32) \<and>
    ptr_ok st' (bs_dk st') \<and>
    ptr_ok st' (bs_dv st') \<and>
    (ptr_ok st (bs_dk st) \<longrightarrow> ptr_ok st (bs_dk_comm_buffer st) \<longrightarrow>
       ptr_ok st' (bs_dk_comm_buffer st')) \<and>
    (ptr_ok st (bs_dv st) \<longrightarrow> ptr_ok st (bs_dv_comm_buffer st) \<longrightarrow>
       ptr_ok st' (bs_dv_comm_buffer st'))"
proof (cases "bs_dq st")
  case None
  then have s0: "s = 0" using assms(2) by simp
  have e: "st' = bwd_init_grads env st" by (simp add: st'_def bwd_accumulate_def None)
  note F = bwd_init_grads_facts[OF assms(1), where env=env, folded e]
  show ?thesis
    using F s0 by (auto simp: ptr_ok_Some wide_def intro: ptr_ok_typed)
next
  case (Some dq)
  then have sp: "0 < s" using assms(2) by simp
  then obtain ndk ndv where nd: "bs_next_dk st = Some ndk" "bs_next_dv st = Some ndv"
    using assms(3) by auto
  define st1 where "st1 = bwd_add_dq (s > pg_rank pg) dq st"
  define st2 where "st2 = wait_d_kv (ar_dk ar) (ar_dv ar) st1"
  have e: "st' = bwd_add_dkv (s > pg_rank pg) st2"
    by (simp add: st'_def bwd_accumulate_def Some st1_def st2_def)
  note F1 = bwd_add_dq_facts[of "s > pg_rank pg" dq st, folded st1_def]
  note F2 = wait_d_kv_facts[of "ar_dk ar" "ar_dv ar" st1, folded st2_def]
  have t1: "typed_step st st1" using F1 by (intro typed_stepI) auto
  have t2: "typed_step st1 st2" using F2 by (intro typed_stepI) auto
  have t12: "typed_step st st2" using t1 t2 by (rule typed_step_trans)
  have n2: "bs_next_dk st2 = Some ndk" "bs_next_dv st2 = Some ndv"
    using F1 F2 nd by simp_all
  have p2: "ptr_ok st2 (Some ndk)" "ptr_ok st2 (Some ndv)"
    using assms(5,6) nd t12 by (auto intro: ptr_ok_typed)
  note F3 = bwd_add_dkv_facts[OF n2 p2, where sc="s > pg_rank pg", folded e]
  have t: "typed_step st st'" using t12 F3 by (blast intro: typed_step_trans)
  have dq': "bs_dq st' = Some dq" using F1 F2 F3 Some by simp
  have "dq < bs_free st" "dtype (bs_heap st dq) = Float32" using assms(4) Some by auto
  then have dqok: "dq < bs_free st'" "dtype (bs_heap st' dq) = Float32"
    using t by (auto simp: typed_step_def same_type_def)
  have cb: "bs_dk_comm_buffer st' = bs_dk st" "bs_dv_comm_buffer st' = bs_dv st"
    using F1 F2 F3 by simp_all
  have basic: "bs_error st' = bs_error st"
    "bs_events st' = bs_events st @ [Wait D_KV_comm]"
    "bs_log st' = bs_log st" "bs_k st' = bs_k st" "bs_v st' = bs_v st"
    "bs_next_dk st' = bs_next_dk st" "bs_next_dv st' = bs_next_dv st"
    "bs_next_k st' = bs_next_k st" "bs_next_v st' = bs_next_v st"
    using F1(1-15) F2(1-15) F3(1-10) by simp_all
  have c1: "ptr_ok st (bs_dk st) \<Longrightarrow> ptr_ok st' (bs_dk_comm_buffer st')"
    and c2: "ptr_ok st (bs_dv st) \<Longrightarrow> ptr_ok st' (bs_dv_comm_buffer st')"
    using cb t by (auto intro: ptr_ok_typed)
  show ?thesis
    using basic t dq' dqok sp F3(14-17) c1 c2 by simp
qed

lemma ok_None: "bs_error st = None \<Longrightarrow> ok f st = f st"
  by (simp add: ok_def)

lemma bwd_step_ok:
  fixes st :: "('a::plus) bwd_state" and env pg hp arrivals dout q out softmax_lse n
  assumes inv: "bwd_ok pg arrivals q k v n st" and n: "n < pg_world_size pg"
  defines "st' \<equiv> bwd_step env pg hp arrivals dout q out softmax_lse n st"
  shows "bwd_ok pg arrivals q k v (Suc n) st' \<and>
         (\<exists>x bx y by.
            bs_log st' = bs_log st @
              [bwd_events pg hp dout q out softmax_lse n
                 (held k (\<lambda>s. ar_k (arrivals s)) n) (held v (\<lambda>s. ar_v (arrivals s)) n)
                 (bs_heap st block_dq_buffer) (bs_heap st block_dk_buffer)
                 (bs_heap st block_dv_buffer)
                 [SendRecv D_KV_comm x bx, SendRecv D_KV_comm y by, Commit D_KV_comm]])"
proof -
  let ?K = "held k (\<lambda>s. ar_k (arrivals s))" and ?V = "held v (\<lambda>s. ar_v (arrivals s))"
  note I = inv[unfolded bwd_ok_def]
  have kv: "bs_k st = ?K n" "bs_v st = ?V n" using I n by simp_all
  have st0: "st\<lparr>bs_events := []\<rparr> = st" using I by simp
  define st1 where "st1 = bwd_fetch env pg n st"
  define st2 where "st2 = bwd_compute env pg hp dout q out softmax_lse n st1"
  define st3 where "st3 = bwd_accumulate env pg n (arrivals n) st2"
  define st4 where "st4 = bwd_rotate_kv pg n (arrivals n) st3"
  define st5 where "st5 = bwd_send_grads env st4"
  note F1 = bwd_fetch_facts[where env=env and pg=pg and s=n and st=st, folded st1_def]
  note F2 = bwd_compute_facts[where env=env and pg=pg and hp=hp and dout=dout and q=q and out=out
      and softmax_lse=softmax_lse and s=n and st=st1, folded st2_def]
  have e1: "bs_error st1 = None" using F1 I by simp
  have e2: "bs_error st2 = None" using F2 e1 by simp
  have t01: "typed_step st st1" using F1 by (intro typed_stepI) simp_all
  have t12: "typed_step st1 st2" using F2 by (intro typed_stepI) simp_all
  have t02: "typed_step st st2" using t01 t12 by (rule typed_step_trans)
  have a1: "3 \<le> bs_free st2" using F1 F2 I by simp
  have a2: "(bs_dq st2 = None) = (n = 0)" using F1 F2 I by simp
  have a3: "0 < n \<longrightarrow> bs_next_dk st2 \<noteq> None \<and> bs_next_dv st2 \<noteq> None" using F1 F2 I by simp
  have a4: "\<forall>a. bs_dq st2 = Some a \<longrightarrow> a < bs_free st2 \<and> dtype (bs_heap st2 a) = Float32"
    using F1(1-14) F2(1-14) I t02 by (auto simp: typed_step_def same_type_def)
  have a5: "ptr_ok st2 (bs_next_dk st2)" "ptr_ok st2 (bs_next_dv st2)"
    using F1(1-14) F2(1-14) I t02 by (auto intro: ptr_ok_typed)
  note F3c = bwd_accumulate_facts[OF a1 a2 a3 a4 a5, where env=env and pg=pg and ar="arrivals n", folded st3_def]
  have F3: "bs_error st3 = bs_error st2"
    "bs_events st3 = bs_events st2 @ (if n = 0 then [] else [Wait D_KV_comm])"
    "bs_log st3 = bs_log st2" "bs_k st3 = bs_k st2" "bs_v st3 = bs_v st2"
    "bs_next_dk st3 = bs_next_dk st2" "bs_next_dv st3 = bs_next_dv st2"
    "bs_next_k st3 = bs_next_k st2" "bs_next_v st3 = bs_next_v st2"
    "typed_step st2 st3"
    "bs_dq st3 \<noteq> None" "bs_dk st3 \<noteq> None" "bs_dv st3 \<noteq> None"
    "\<forall>a. bs_dq st3 = Some a \<longrightarrow> a < bs_free st3 \<and> dtype (bs_heap st3 a) = Float32"
    "ptr_ok st3 (bs_dk st3)" "ptr_ok st3 (bs_dv st3)"
    using F3c by simp_all
  have F3i: "ptr_ok st2 (bs_dk st2) \<Longrightarrow> ptr_ok st2 (bs_dk_comm_buffer st2) \<Longrightarrow>
       ptr_ok st3 (bs_dk_comm_buffer st3)"
     "ptr_ok st2 (bs_dv st2) \<Longrightarrow> ptr_ok st2 (bs_dv_comm_buffer st2) \<Longrightarrow>
       ptr_ok st3 (bs_dv_comm_buffer st3)"
    using F3c by simp_all
  have e3: "bs_error st3 = None" using F3 e2 by simp
  have t03: "typed_step st st3" using t02 F3 by (blast intro: typed_step_trans)
  have nk: "n + 1 \<noteq> pg_world_size pg \<longrightarrow>
      bs_next_k st3 = Some (empty_like env (?K n)) \<and> bs_next_v st3 = Some (empty_like env (?V n))"
    using F1(15) F2(1-14) F3 kv by simp
  note F4 = bwd_rotate_kv_facts[OF nk, where ar="arrivals n", folded st4_def]
  have e4: "bs_error st4 = None" using F4 e3 by simp
  have t04: "typed_step st st4" using t03 F4 by (simp add: typed_step_def)
  have p3: "ptr_ok st3 (bs_dk_comm_buffer st3)" "ptr_ok st3 (bs_dv_comm_buffer st3)"
  proof -
    have "ptr_ok st2 (bs_dk st2)" "ptr_ok st2 (bs_dk_comm_buffer st2)"
         "ptr_ok st2 (bs_dv st2)" "ptr_ok st2 (bs_dv_comm_buffer st2)"
      using F1(1-14) F2(1-14) I t02 by (auto intro: ptr_ok_typed)
    then show "ptr_ok st3 (bs_dk_comm_buffer st3)" "ptr_ok st3 (bs_dv_comm_buffer st3)"
      using F3i by blast+
  qed
  obtain dk dv where d4: "bs_dk st4 = Some dk" "bs_dv st4 = Some dv"
    using F3(12,13) F4(7,8) by auto
  have p4: "ptr_ok st4 (Some dk)" "ptr_ok st4 (Some dv)"
       "ptr_ok st4 (bs_dk_comm_buffer st4)" "ptr_ok st4 (bs_dv_comm_buffer st4)"
    using F3(15,16) F4(7,8,11,12) d4 p3 by (simp_all add: ptr_ok_same[OF F4(4,5)])
  note F5 = bwd_send_grads_facts[OF d4 p4, where env=env, folded st5_def]
  have e5: "bs_error st5 = None" using F5 e4 by simp
  have t05: "typed_step st st5" using t04 F5 by (blast intro: typed_step_trans)
  have s': "st' = st5\<lparr>bs_events := [], bs_log := bs_log st5 @ [bs_events st5]\<rparr>"
    using I e1 e2 e3 e4
    by (simp add: st'_def bwd_step_def st0 Let_def ok_None st1_def st2_def st3_def st4_def st5_def)
  have t: "typed_step st st'" using t05 by (simp add: s' typed_step_def)
  obtain x bx y "by" where ev5: "bs_events st5 = bs_events st4 @
        [SendRecv D_KV_comm x bx, SendRecv D_KV_comm y by, Commit D_KV_comm]"
    using F5(15) by blast
  have ev: "bs_events st5 = bwd_events pg hp dout q out softmax_lse n (?K n) (?V n)
              (bs_heap st block_dq_buffer) (bs_heap st block_dk_buffer) (bs_heap st block_dv_buffer)
              [SendRecv D_KV_comm x bx, SendRecv D_KV_comm y by, Commit D_KV_comm]"
    using ev5 F4(2) F3 F2(15) F1(1-14) kv I by (simp add: bwd_events_def)
  have lg: "bs_log st5 = bs_log st" using F1 F2 F3 F4 F5 by simp
  have kv': "Suc n < pg_world_size pg \<longrightarrow> bs_k st' = ?K (Suc n) \<and> bs_v st' = ?V (Suc n)"
    using F5(3,4) F4(13,14)
      held_Suc[of env k "\<lambda>s. ar_k (arrivals s)" n] held_Suc[of env v "\<lambda>s. ar_v (arrivals s)" n]
    by (simp add: s')
  have dq5: "bs_dq st5 = bs_dq st3" using F4 F5 by simp
  have ok': "bwd_ok pg arrivals q k v (Suc n) st'"
    unfolding bwd_ok_def
  proof (intro conjI)
    show "bs_error st' = None" using e5 by (simp add: s')
    show "bs_events st' = []" by (simp add: s')
    show "3 \<le> bs_free st'" using t I by (auto simp: typed_step_def)
    show "same_type (bs_heap st' block_dq_buffer) q"
      using t I by (auto simp: block_dq_buffer_def intro: typed_step_same)
    show "same_type (bs_heap st' block_dk_buffer) k"
      using t I by (auto simp: block_dk_buffer_def intro: typed_step_same)
    show "same_type (bs_heap st' block_dv_buffer) v"
      using t I by (auto simp: block_dv_buffer_def intro: typed_step_same)
    show "(bs_dq st' = None) = (Suc n = 0)" using F3 dq5 by (simp add: s')
    show "0 < Suc n \<longrightarrow> bs_dk st' \<noteq> None \<and> bs_dv st' \<noteq> None \<and>
                bs_next_dk st' \<noteq> None \<and> bs_next_dv st' \<noteq> None"
      using F5 d4 by (simp add: s')
    show "\<forall>a. bs_dq st' = Some a \<longrightarrow> a < bs_free st' \<and> dtype (bs_heap st' a) = Float32"
    proof (intro allI impI)
      fix a assume "bs_dq st' = Some a"
      then have "bs_dq st3 = Some a" using dq5 by (simp add: s')
      then have "a < bs_free st3" "dtype (bs_heap st3 a) = Float32" using F3 by auto
      moreover have "typed_step st3 st5" using F4 F5 by (auto simp: typed_step_def)
      ultimately show "a < bs_free st' \<and> dtype (bs_heap st' a) = Float32"
        by (auto simp: s' typed_step_def same_type_def)
    qed
    have p5: "ptr_ok st5 (bs_dk st5)" "ptr_ok st5 (bs_dv st5)"
      "ptr_ok st5 (bs_dk_comm_buffer st5)" "ptr_ok st5 (bs_dv_comm_buffer st5)"
      using F5 d4 p4 by (auto intro: ptr_ok_typed)
    show "ptr_ok st' (bs_dk st')" "ptr_ok st' (bs_dv st')"
      "ptr_ok st' (bs_dk_comm_buffer st')" "ptr_ok st' (bs_dv_comm_buffer st')"
      "ptr_ok st' (bs_next_dk st')" "ptr_ok st' (bs_next_dv st')"
      using p5 F5(13,14) by (simp_all add: s')
    show "Suc n < pg_world_size pg \<longrightarrow> bs_k st' = ?K (Suc n) \<and> bs_v st' = ?V (Suc n)"
      by (rule kv')
  qed
  have "bs_log st' = bs_log st @ [bs_events st5]" using lg by (simp add: s')
  then show ?thesis using ok' ev by metis
qed

subsection \<open>The backward loop: all iterations\<close>

lemma bwd_loop_Suc:
  "bwd_loop env pg hp arrivals dout q k v out softmax_lse (Suc n) =
     bwd_step env pg hp arrivals dout q out softmax_lse n
       (bwd_loop env pg hp arrivals dout q k v out softmax_lse n)"
  by (simp add: bwd_loop_def)

lemma bwd_loop_0: "bwd_loop env pg hp arrivals dout q k v out softmax_lse 0 = bwd_init env q k v"
  by (simp add: bwd_loop_def)

lemma bwd_init_ok: "bwd_ok pg arrivals q k v 0 (bwd_init env q k v)"
  by (simp add: bwd_ok_def bwd_init_def held_def same_type_def empty_like_def
        block_dq_buffer_def block_dk_buffer_def block_dv_buffer_def)

lemma bwd_loop_ok:
  fixes env :: "('a::plus) env"
  shows "n \<le> pg_world_size pg \<Longrightarrow>
     bwd_ok pg arrivals q k v n (bwd_loop env pg hp arrivals dout q k v out softmax_lse n) \<and>
     length (bs_log (bwd_loop env pg hp arrivals dout q k v out softmax_lse n)) = n \<and>
     (\<forall>s<n. bwd_logged pg hp arrivals dout q k v out softmax_lse s
               (bs_log (bwd_loop env pg hp arrivals dout q k v out softmax_lse n) ! s))"
proof (induction n)
  case 0
  show ?case by (simp add: bwd_loop_0 bwd_init_ok) (simp add: bwd_init_def)
next
  case (Suc n)
  let ?st = "bwd_loop env pg hp arrivals dout q k v out softmax_lse n"
  from Suc have n: "n < pg_world_size pg" by simp
  with Suc have IH: "bwd_ok pg arrivals q k v n ?st" "length (bs_log ?st) = n"
    "\<forall>s<n. bwd_logged pg hp arrivals dout q k v out softmax_lse s (bs_log ?st ! s)"
    by simp_all
  from bwd_step_ok[OF IH(1) n, where env=env and hp=hp and dout=dout and out=out
      and softmax_lse=softmax_lse]
  obtain es where ok: "bwd_ok pg arrivals q k v (Suc n)
        (bwd_step env pg hp arrivals dout q out softmax_lse n ?st)"
    and lg: "bs_log (bwd_step env pg hp arrivals dout q out softmax_lse n ?st) = bs_log ?st @ [es]"
    and es: "bwd_logged pg hp arrivals dout q k v out softmax_lse n es"
    unfolding bwd_logged_def using IH(1)[unfolded bwd_ok_def] by blast
  show ?case
    using ok lg es IH(2,3) by (auto simp: bwd_loop_Suc nth_append less_Suc_eq)
qed

lemma bwd_log:
  fixes env :: "('a::plus) env"
  assumes "hp_causal hp"
  shows "length (fst (snd (stripe_flash_attn_backward env pg arrivals dout q k v out softmax_lse hp)))
           = pg_world_size pg"
    and "s < pg_world_size pg \<Longrightarrow>
          bwd_logged pg hp arrivals dout q k v out softmax_lse s
            (fst (snd (stripe_flash_attn_backward env pg arrivals dout q k v out softmax_lse hp)) ! s)"
proof -
  let ?st = "bwd_loop env pg hp arrivals dout q k v out softmax_lse (pg_world_size pg)"
  note L = bwd_loop_ok[of "pg_world_size pg" pg arrivals q k v env hp dout out softmax_lse, simplified]
  have e: "bs_error ?st = None" using L by (simp add: bwd_ok_def)
  have lg: "fst (snd (stripe_flash_attn_backward env pg arrivals dout q k v out softmax_lse hp))
       = bs_log ?st"
    using assms e
    by (simp add: stripe_flash_attn_backward_def Let_def wait_d_kv_def emit_def
          split: option.splits prod.splits)
  show "length (fst (snd (stripe_flash_attn_backward env pg arrivals dout q k v out softmax_lse hp)))
           = pg_world_size pg" using L lg by simp
  show "bwd_logged pg hp arrivals dout q k v out softmax_lse s
            (fst (snd (stripe_flash_attn_backward env pg arrivals dout q k v out softmax_lse hp)) ! s)"
    if "s < pg_world_size pg" using L lg that by simp
qed

lemma bwd_logged_filters:
  assumes "bwd_logged pg hp arrivals dout q k v out softmax_lse s es"
  shows "filter (on_comm KV_comm) es =
           (if s + 1 = pg_world_size pg then []
            else [SendRecv KV_comm (held k (\<lambda>s. ar_k (arrivals s)) s) None,
                  SendRecv KV_comm (held v (\<lambda>s. ar_v (arrivals s)) s) None,
                  Commit KV_comm, Wait KV_comm])"
    and "filter is_LseSlice es = (if pg_rank pg < s then [LseSlice] else [])"
    and "\<exists>bq bk bv. same_type bq q \<and> same_type bk k \<and> same_type bv v \<and>
           filter is_BwdKernel es =
             [BwdKernel (if s \<le> pg_rank pg then Full else Shifted)
                (bwd_kernel_call pg hp dout q out softmax_lse s
                   (held k (\<lambda>s. ar_k (arrivals s)) s) (held v (\<lambda>s. ar_v (arrivals s)) s)
                   bq bk bv)]"
    and "\<exists>x bx y by. filter (on_comm D_KV_comm) es =
           (if s = 0 then [] else [Wait D_KV_comm]) @
           [SendRecv D_KV_comm x bx, SendRecv D_KV_comm y by, Commit D_KV_comm]"
proof -
  from assms obtain bq bk bv x bx y "by" where
    es: "es = bwd_events pg hp dout q out softmax_lse s
               (held k (\<lambda>s. ar_k (arrivals s)) s) (held v (\<lambda>s. ar_v (arrivals s)) s)
               bq bk bv
               [SendRecv D_KV_comm x bx, SendRecv D_KV_comm y by, Commit D_KV_comm]"
    and t: "same_type bq q" "same_type bk k" "same_type bv v"
    unfolding bwd_logged_def by blast
  show "filter (on_comm KV_comm) es =
           (if s + 1 = pg_world_size pg then []
            else [SendRecv KV_comm (held k (\<lambda>s. ar_k (arrivals s)) s) None,
                  SendRecv KV_comm (held v (\<lambda>s. ar_v (arrivals s)) s) None,
                  Commit KV_comm, Wait KV_comm])"
    by (simp add: es bwd_events_def)
  show "filter is_LseSlice es = (if pg_rank pg < s then [LseSlice] else [])"
    by (simp add: es bwd_events_def)
  show "\<exists>bq bk bv. same_type bq q \<and> same_type bk k \<and> same_type bv v \<and>
           filter is_BwdKernel es =
             [BwdKernel (if s \<le> pg_rank pg then Full else Shifted)
                (bwd_kernel_call pg hp dout q out softmax_lse s
                   (held k (\<lambda>s. ar_k (arrivals s)) s) (held v (\<lambda>s. ar_v (arrivals s)) s)
                   bq bk bv)]"
    using t by (intro exI[of _ bq] exI[of _ bk] exI[of _ bv]) (simp add: es bwd_events_def)
  show "\<exists>x bx y by. filter (on_comm D_KV_comm) es =
           (if s = 0 then [] else [Wait D_KV_comm]) @
           [SendRecv D_KV_comm x bx, SendRecv D_KV_comm y by, Commit D_KV_comm]"
    by (intro exI[of _ x] exI[of _ bx] exI[of _ y] exI[of _ "by"]) (simp add: es bwd_events_def)
qed

lemma bwd_loop_log_nth:
  fixes env :: "('a::plus) env"
  shows "n \<le> pg_world_size pg \<Longrightarrow> s < n \<Longrightarrow>
         bs_log (bwd_loop env pg hp arrivals dout q k v out softmax_lse n) ! s =
         bs_log (bwd_loop env pg hp arrivals dout q k v out softmax_lse (Suc s)) ! s"
proof (induction n)
  case 0
  then show ?case by simp
next
  case (Suc n)
  let ?st = "bwd_loop env pg hp arrivals dout q k v out softmax_lse n"
  from Suc have n: "n < pg_world_size pg" by simp
  have ok: "bwd_ok pg arrivals q k v n ?st" and len: "length (bs_log ?st) = n"
    using bwd_loop_ok[of n pg arrivals q k v env hp dout out softmax_lse] n by simp_all
  from bwd_step_ok[OF ok n, where env=env and hp=hp and dout=dout and out=out
      and softmax_lse=softmax_lse, folded bwd_loop_Suc]
  obtain es where lg: "bs_log (bwd_loop env pg hp arrivals dout q k v out softmax_lse (Suc n)) =
       bs_log ?st @ [es]"
    by blast
  show ?case
  proof (cases "s = n")
    case True
    then show ?thesis by simp
  next
    case False
    then have "s < n" using Suc.prems by simp
    then show ?thesis using Suc.IH n lg len by (simp add: nth_append)
  qed
qed

lemma backward_log_loop:
  fixes env :: "('a::plus) env"
  assumes "hp_causal hp"
  shows "fst (snd (stripe_flash_attn_backward env pg arrivals dout q k v out softmax_lse hp)) =
         bs_log (bwd_loop env pg hp arrivals dout q k v out softmax_lse (pg_world_size pg))"
proof -
  let ?st = "bwd_loop env pg hp arrivals dout q k v out softmax_lse (pg_world_size pg)"
  have e: "bs_error ?st = None"
    using bwd_loop_ok[of "pg_world_size pg" pg arrivals q k v env hp dout out softmax_lse]
    by (simp add: bwd_ok_def)
  show ?thesis
    using assms e
    by (simp add: stripe_flash_attn_backward_def Let_def wait_d_kv_def emit_def
          split: option.splits prod.splits)
qed

lemma backward_log_entry:
  fixes env :: "('a::plus) env"
  assumes c: "hp_causal hp" and s: "s < pg_world_size pg"
  shows "\<exists>x bx y by.
     fst (snd (stripe_flash_attn_backward env pg arrivals dout q k v out softmax_lse hp)) ! s =
       bwd_events pg hp dout q out softmax_lse s
         (held k (\<lambda>s. ar_k (arrivals s)) s) (held v (\<lambda>s. ar_v (arrivals s)) s)
         (bs_heap (bwd_loop env pg hp arrivals dout q k v out softmax_lse s) block_dq_buffer)
         (bs_heap (bwd_loop env pg hp arrivals dout q k v out softmax_lse s) block_dk_buffer)
         (bs_heap (bwd_loop env pg hp arrivals dout q k v out softmax_lse s) block_dv_buffer)
         [SendRecv D_KV_comm x bx, SendRecv D_KV_comm y by, Commit D_KV_comm]"
proof -
  let ?st = "bwd_loop env pg hp arrivals dout q k v out softmax_lse s"
  have ok: "bwd_ok pg arrivals q k v s ?st" and len: "length (bs_log ?st) = s"
    using bwd_loop_ok[of s pg arrivals q k v env hp dout out softmax_lse] s by simp_all
  from bwd_step_ok[OF ok s, where env=env and hp=hp and dout=dout and out=out
      and softmax_lse=softmax_lse, folded bwd_loop_Suc]
  obtain x bx y "by" where
    lg: "bs_log (bwd_loop env pg hp arrivals dout q k v out softmax_lse (Suc s)) =
           bs_log ?st @
             [bwd_events pg hp dout q out softmax_lse s
                (held k (\<lambda>s. ar_k (arrivals s)) s) (held v (\<lambda>s. ar_v (arrivals s)) s)
                (bs_heap ?st block_dq_buffer) (bs_heap ?st block_dk_buffer)
                (bs_heap ?st block_dv_buffer)
                [SendRecv D_KV_comm x bx, SendRecv D_KV_comm y by, Commit D_KV_comm]]"
    by blast
  have "fst (snd (stripe_flash_attn_backward env pg arrivals dout q k v out softmax_lse hp)) ! s =
          bs_log (bwd_loop env pg hp arrivals dout q k v out softmax_lse (Suc s)) ! s"
    using backward_log_loop[OF c, of env pg arrivals dout q k v out softmax_lse]
      bwd_loop_log_nth[of "pg_world_size pg" pg s env hp arrivals dout q k v out softmax_lse] s
    by simp
  also have "\<dots> =
          bwd_events pg hp dout q out softmax_lse s
            (held k (\<lambda>s. ar_k (arrivals s)) s) (held v (\<lambda>s. ar_v (arrivals s)) s)
            (bs_heap ?st block_dq_buffer) (bs_heap ?st block_dk_buffer)
            (bs_heap ?st block_dv_buffer)
            [SendRecv D_KV_comm x bx, SendRecv D_KV_comm y by, Commit D_KV_comm]"
    using lg len by (simp add: nth_append)
  finally show ?thesis by blast
qed

subsection \<open>C4: as many steps as ranks, and no fetch in the last one\<close>

text \<open>
  Claim C4. With \<open>P\<close> ranks, the forward and the backward pass each run \<open>P\<close> steps, with
  one kernel call per step. On the K/V ring a step before the last issues two
  \<^verbatim>\<open>send_recv\<close>, one \<^verbatim>\<open>commit\<close> and one \<^verbatim>\<open>wait\<close>; the last step (step \<open>P - 1\<close>) issues
  none of them.
\<close>

theorem ring_steps:
  fixes env :: "('a::{plus,times}) env"
  assumes "hp_causal hp"
  shows "length (snd (stripe_flash_attn_forward env pg inbox q k v hp)) = pg_world_size pg \<and>
         length (fst (snd (stripe_flash_attn_backward env pg arrivals dout q k v out softmax_lse hp)))
           = pg_world_size pg \<and>
         (\<forall>s < pg_world_size pg.
            length (filter is_FwdKernel (snd (stripe_flash_attn_forward env pg inbox q k v hp) ! s)) = 1 \<and>
            length (filter is_BwdKernel
              (fst (snd (stripe_flash_attn_backward env pg arrivals dout q k v out softmax_lse hp)) ! s)) = 1 \<and>
            filter (on_comm Comm) (snd (stripe_flash_attn_forward env pg inbox q k v hp) ! s) =
              (if s + 1 = pg_world_size pg then []
               else [SendRecv Comm (held k (\<lambda>s. fst (inbox s)) s) None,
                     SendRecv Comm (held v (\<lambda>s. snd (inbox s)) s) None,
                     Commit Comm, Wait Comm]) \<and>
            filter (on_comm KV_comm)
              (fst (snd (stripe_flash_attn_backward env pg arrivals dout q k v out softmax_lse hp)) ! s) =
              (if s + 1 = pg_world_size pg then []
               else [SendRecv KV_comm (held k (\<lambda>s. ar_k (arrivals s)) s) None,
                     SendRecv KV_comm (held v (\<lambda>s. ar_v (arrivals s)) s) None,
                     Commit KV_comm, Wait KV_comm]))"
proof (intro conjI allI impI)
  show "length (snd (stripe_flash_attn_forward env pg inbox q k v hp)) = pg_world_size pg"
    using assms by (simp add: fwd_log)
  show "length (fst (snd (stripe_flash_attn_backward env pg arrivals dout q k v out softmax_lse hp)))
           = pg_world_size pg"
    using assms by (rule bwd_log(1))
next
  fix s assume s: "s < pg_world_size pg"
  show "length (filter is_FwdKernel (snd (stripe_flash_attn_forward env pg inbox q k v hp) ! s)) = 1"
    using assms s by (simp add: fwd_log fwd_events_def)
  show "filter (on_comm Comm) (snd (stripe_flash_attn_forward env pg inbox q k v hp) ! s) =
              (if s + 1 = pg_world_size pg then []
               else [SendRecv Comm (held k (\<lambda>s. fst (inbox s)) s) None,
                     SendRecv Comm (held v (\<lambda>s. snd (inbox s)) s) None,
                     Commit Comm, Wait Comm])"
    using assms s by (simp add: fwd_log fwd_events_def)
  note B = bwd_logged_filters[OF bwd_log(2)[OF assms s]]
  from B(3) obtain m a where "filter is_BwdKernel
          (fst (snd (stripe_flash_attn_backward env pg arrivals dout q k v out softmax_lse hp)) ! s)
            = [BwdKernel m a]" by blast
  then show "length (filter is_BwdKernel
          (fst (snd (stripe_flash_attn_backward env pg arrivals dout q k v out softmax_lse hp)) ! s)) = 1"
    by simp
  show "filter (on_comm KV_comm)
              (fst (snd (stripe_flash_attn_backward env pg arrivals dout q k v out softmax_lse hp)) ! s) =
              (if s + 1 = pg_world_size pg then []
               else [SendRecv KV_comm (held k (\<lambda>s. ar_k (arrivals s)) s) None,
                     SendRecv KV_comm (held v (\<lambda>s. ar_v (arrivals s)) s) None,
                     Commit KV_comm, Wait KV_comm])"
    using B(1) .
qed

text \<open>A ring of two: step 0 fetches, step 1 does not.\<close>

theorem ring_steps_witness:
  "hp_causal toy_hp \<and>
   length (snd (stripe_flash_attn_forward toy_env (toy_pg 2 0) toy_inbox
                  (toy_block 1) (toy_block 2) (toy_block 3) toy_hp)) = 2 \<and>
   length (fst (snd (stripe_flash_attn_backward toy_env (toy_pg 2 0) toy_arrivals
                  (toy_block 4) (toy_block 1) (toy_block 2) (toy_block 3) (toy_block 7)
                  toy_lse toy_hp))) = 2 \<and>
   filter (on_comm Comm)
     (snd (stripe_flash_attn_forward toy_env (toy_pg 2 0) toy_inbox
             (toy_block 1) (toy_block 2) (toy_block 3) toy_hp) ! 0) =
     [SendRecv Comm (toy_block 2) None, SendRecv Comm (toy_block 3) None, Commit Comm, Wait Comm] \<and>
   filter (on_comm Comm)
     (snd (stripe_flash_attn_forward toy_env (toy_pg 2 0) toy_inbox
             (toy_block 1) (toy_block 2) (toy_block 3) toy_hp) ! 1) = [] \<and>
   filter (on_comm KV_comm)
     (fst (snd (stripe_flash_attn_backward toy_env (toy_pg 2 0) toy_arrivals
             (toy_block 4) (toy_block 1) (toy_block 2) (toy_block 3) (toy_block 7)
             toy_lse toy_hp)) ! 0) =
     [SendRecv KV_comm (toy_block 2) None, SendRecv KV_comm (toy_block 3) None,
      Commit KV_comm, Wait KV_comm] \<and>
   filter (on_comm KV_comm)
     (fst (snd (stripe_flash_attn_backward toy_env (toy_pg 2 0) toy_arrivals
             (toy_block 4) (toy_block 1) (toy_block 2) (toy_block 3) (toy_block 7)
             toy_lse toy_hp)) ! 1) = []"
proof -
  have h: "hp_causal toy_hp" by (simp add: toy_hp_def)
  note R = ring_steps[OF h, of toy_env "toy_pg 2 0" toy_inbox "toy_block 1" "toy_block 2"
             "toy_block 3" toy_arrivals "toy_block 4" "toy_block 7" toy_lse]
  have P: "pg_world_size (toy_pg 2 0) = 2" by (simp add: toy_pg_def)
  from R have R0: "length (snd (stripe_flash_attn_forward toy_env (toy_pg 2 0) toy_inbox
                  (toy_block 1) (toy_block 2) (toy_block 3) toy_hp)) = 2"
    "length (fst (snd (stripe_flash_attn_backward toy_env (toy_pg 2 0) toy_arrivals
                  (toy_block 4) (toy_block 1) (toy_block 2) (toy_block 3) (toy_block 7)
                  toy_lse toy_hp))) = 2"
    by (simp_all add: P)
  from R have A: "\<forall>s<2.
      filter (on_comm Comm)
       (snd (stripe_flash_attn_forward toy_env (toy_pg 2 0) toy_inbox (toy_block 1) (toy_block 2)
              (toy_block 3) toy_hp) ! s) =
      (if s + 1 = 2 then []
       else [SendRecv Comm (held (toy_block 2) (\<lambda>s. fst (toy_inbox s)) s) None,
             SendRecv Comm (held (toy_block 3) (\<lambda>s. snd (toy_inbox s)) s) None, Commit Comm,
             Wait Comm]) \<and>
      filter (on_comm KV_comm)
       (fst (snd (stripe_flash_attn_backward toy_env (toy_pg 2 0) toy_arrivals (toy_block 4)
                   (toy_block 1) (toy_block 2) (toy_block 3) (toy_block 7) toy_lse toy_hp)) ! s) =
      (if s + 1 = 2 then []
       else [SendRecv KV_comm (held (toy_block 2) (\<lambda>s. ar_k (toy_arrivals s)) s) None,
             SendRecv KV_comm (held (toy_block 3) (\<lambda>s. ar_v (toy_arrivals s)) s) None,
             Commit KV_comm, Wait KV_comm])"
    by (simp add: P)
  show ?thesis
    using h R0 A[rule_format, of 0] A[rule_format, of 1] by (simp add: held_def)
qed

subsection \<open>C5: the mode of a backward step\<close>

text \<open>
  Claim C5. Every step \<open>s < P\<close> of \<^verbatim>\<open>stripe_flash_attn_backward\<close> makes one kernel
  call, in the mode of the forward pass at the same step of the same ring: Shifted
  exactly when \<open>s > rank\<close>, and on the same Q, K and V. In Shifted mode the call gets rows
  \<open>[1, end)\<close> of \<open>dout\<close>, \<open>q\<close>, \<open>out\<close> and of the dQ block buffer, rows \<open>[0, end - 1)\<close> of
  the K and V held and of the dK and dV block buffers, and the saved log-sum-exp
  without its first position; in Full mode it gets all of them whole. The block
  buffers are the three tensors of lines 106--108 as the step finds them, that is
  after the \<open>s\<close> iterations before it; they have the dtype and shape of \<open>q\<close>, \<open>k\<close> and
  \<open>v\<close>.
\<close>

theorem backward_mode:
  fixes env :: "('a::{plus,times}) env"
  assumes "hp_causal hp" and "s < pg_world_size pg"
  shows "\<exists>m a a'.
           filter is_BwdKernel
             (fst (snd (stripe_flash_attn_backward env pg arrivals dout q k v out softmax_lse hp)) ! s)
             = [BwdKernel m a] \<and>
           filter is_FwdKernel
             (snd (stripe_flash_attn_forward env pg (\<lambda>s. (ar_k (arrivals s), ar_v (arrivals s)))
                     q k v hp) ! s)
             = [FwdKernel m a'] \<and>
           (m = Shifted \<longleftrightarrow> pg_rank pg < s) \<and> (m = Full \<longleftrightarrow> s \<le> pg_rank pg) \<and>
           ba_q a = fa_q a' \<and> ba_k a = fa_k a' \<and> ba_v a = fa_v a' \<and> ba_causal a = fa_causal a' \<and>
           same_type
             (bs_heap (bwd_loop env pg hp arrivals dout q k v out softmax_lse s) block_dq_buffer) q \<and>
           same_type
             (bs_heap (bwd_loop env pg hp arrivals dout q k v out softmax_lse s) block_dk_buffer) k \<and>
           same_type
             (bs_heap (bwd_loop env pg hp arrivals dout q k v out softmax_lse s) block_dv_buffer) v \<and>
           (if pg_rank pg < s
            then ba_dout a = rows_from1 dout \<and> ba_q a = rows_from1 q \<and>
                 ba_out a = rows_from1 out \<and>
                 ba_dq a = rows_from1
                   (bs_heap (bwd_loop env pg hp arrivals dout q k v out softmax_lse s)
                      block_dq_buffer) \<and>
                 ba_k a = rows_to_last (held k (\<lambda>s. ar_k (arrivals s)) s) \<and>
                 ba_v a = rows_to_last (held v (\<lambda>s. ar_v (arrivals s)) s) \<and>
                 ba_dk a = rows_to_last
                   (bs_heap (bwd_loop env pg hp arrivals dout q k v out softmax_lse s)
                      block_dk_buffer) \<and>
                 ba_dv a = rows_to_last
                   (bs_heap (bwd_loop env pg hp arrivals dout q k v out softmax_lse s)
                      block_dv_buffer) \<and>
                 ba_softmax_lse a = lse_from1 softmax_lse
            else ba_dout a = dout \<and> ba_q a = q \<and> ba_out a = out \<and>
                 ba_dq a =
                   bs_heap (bwd_loop env pg hp arrivals dout q k v out softmax_lse s)
                     block_dq_buffer \<and>
                 ba_k a = held k (\<lambda>s. ar_k (arrivals s)) s \<and>
                 ba_v a = held v (\<lambda>s. ar_v (arrivals s)) s \<and>
                 ba_dk a =
                   bs_heap (bwd_loop env pg hp arrivals dout q k v out softmax_lse s)
                     block_dk_buffer \<and>
                 ba_dv a =
                   bs_heap (bwd_loop env pg hp arrivals dout q k v out softmax_lse s)
                     block_dv_buffer \<and>
                 ba_softmax_lse a = softmax_lse)"
proof -
  let ?st = "bwd_loop env pg hp arrivals dout q k v out softmax_lse s"
  have ok: "bwd_ok pg arrivals q k v s ?st"
    using bwd_loop_ok[of s pg arrivals q k v env hp dout out softmax_lse] assms(2) by simp
  have t: "same_type (bs_heap ?st block_dq_buffer) q" "same_type (bs_heap ?st block_dk_buffer) k"
    "same_type (bs_heap ?st block_dv_buffer) v"
    using ok by (simp_all add: bwd_ok_def)
  from backward_log_entry[OF assms, of env arrivals dout q k v out softmax_lse]
  obtain x bx y "by" where
    e: "fst (snd (stripe_flash_attn_backward env pg arrivals dout q k v out softmax_lse hp)) ! s =
          bwd_events pg hp dout q out softmax_lse s
            (held k (\<lambda>s. ar_k (arrivals s)) s) (held v (\<lambda>s. ar_v (arrivals s)) s)
            (bs_heap ?st block_dq_buffer) (bs_heap ?st block_dk_buffer)
            (bs_heap ?st block_dv_buffer)
            [SendRecv D_KV_comm x bx, SendRecv D_KV_comm y by, Commit D_KV_comm]"
    by blast
  have b: "filter is_BwdKernel
             (fst (snd (stripe_flash_attn_backward env pg arrivals dout q k v out softmax_lse hp)) ! s) =
             [BwdKernel (if s \<le> pg_rank pg then Full else Shifted)
                (bwd_kernel_call pg hp dout q out softmax_lse s
                   (held k (\<lambda>s. ar_k (arrivals s)) s) (held v (\<lambda>s. ar_v (arrivals s)) s)
                   (bs_heap ?st block_dq_buffer) (bs_heap ?st block_dk_buffer)
                   (bs_heap ?st block_dv_buffer))]"
    by (simp add: e bwd_events_def)
  have f: "filter is_FwdKernel
             (snd (stripe_flash_attn_forward env pg (\<lambda>s. (ar_k (arrivals s), ar_v (arrivals s)))
                     q k v hp) ! s) =
           [FwdKernel (if s \<le> pg_rank pg then Full else Shifted)
              (if s \<le> pg_rank pg
               then fwd_call hp q (held k (\<lambda>s. ar_k (arrivals s)) s) (held v (\<lambda>s. ar_v (arrivals s)) s)
               else fwd_call hp (rows_from1 q)
                      (rows_to_last (held k (\<lambda>s. ar_k (arrivals s)) s))
                      (rows_to_last (held v (\<lambda>s. ar_v (arrivals s)) s)))]"
    using assms by (simp add: fwd_log fwd_events_def)
  show ?thesis
    apply (rule exI[of _ "if s \<le> pg_rank pg then Full else Shifted"])
    apply (rule exI[of _ "bwd_kernel_call pg hp dout q out softmax_lse s
                   (held k (\<lambda>s. ar_k (arrivals s)) s) (held v (\<lambda>s. ar_v (arrivals s)) s)
                   (bs_heap ?st block_dq_buffer) (bs_heap ?st block_dk_buffer)
                   (bs_heap ?st block_dv_buffer)"])
    apply (rule exI[of _ "if s \<le> pg_rank pg
               then fwd_call hp q (held k (\<lambda>s. ar_k (arrivals s)) s) (held v (\<lambda>s. ar_v (arrivals s)) s)
               else fwd_call hp (rows_from1 q)
                      (rows_to_last (held k (\<lambda>s. ar_k (arrivals s)) s))
                      (rows_to_last (held v (\<lambda>s. ar_v (arrivals s)) s))"])
    using t b f by (simp add: bwd_kernel_call_def bwd_call_def fwd_call_def)
qed

subsection \<open>C8: the slice of the log-sum-exp is taken anew at every Shifted step\<close>

text \<open>
  Claim C8. At a step \<open>s < P\<close> of the backward pass the expression
  \<^verbatim>\<open>softmax_lse[:, :, 1:].contiguous()\<close> is evaluated once when \<open>s > rank\<close> and not at all
  otherwise; whatever \<^verbatim>\<open>softmax_lse_1\<close> held when the iteration began, the iteration
  resets it and, when Shifted, takes the slice from \<^verbatim>\<open>softmax_lse\<close>; the kernel of a
  Shifted step gets this slice.
\<close>

theorem lse_slice_every_step:
  fixes env :: "('a::plus) env"
  assumes "hp_causal hp" and "s < pg_world_size pg"
  shows "filter is_LseSlice
           (fst (snd (stripe_flash_attn_backward env pg arrivals dout q k v out softmax_lse hp)) ! s)
           = (if pg_rank pg < s then [LseSlice] else []) \<and>
         (\<forall>st. bs_softmax_lse_1 (bwd_compute env pg hp dout q out softmax_lse s st) =
                 (if pg_rank pg < s then Some (lse_from1 softmax_lse) else None)) \<and>
         (\<exists>m a. filter is_BwdKernel
                   (fst (snd (stripe_flash_attn_backward env pg arrivals dout q k v out softmax_lse hp)) ! s)
                   = [BwdKernel m a] \<and>
                 ba_softmax_lse a = (if pg_rank pg < s then lse_from1 softmax_lse else softmax_lse))"
proof (intro conjI allI)
  show "filter is_LseSlice
           (fst (snd (stripe_flash_attn_backward env pg arrivals dout q k v out softmax_lse hp)) ! s)
           = (if pg_rank pg < s then [LseSlice] else [])"
    by (rule bwd_logged_filters(2)[OF bwd_log(2)[OF assms]])
  show "bs_softmax_lse_1 (bwd_compute env pg hp dout q out softmax_lse s st) =
                 (if pg_rank pg < s then Some (lse_from1 softmax_lse) else None)" for st
    by (simp add: bwd_compute_def Let_def lazy_lse_1_def emit_def split: prod.splits)
  from bwd_logged_filters(3)[OF bwd_log(2)[OF assms]]
  obtain bq bk bv where b: "filter is_BwdKernel
             (fst (snd (stripe_flash_attn_backward env pg arrivals dout q k v out softmax_lse hp)) ! s) =
             [BwdKernel (if s \<le> pg_rank pg then Full else Shifted)
                (bwd_kernel_call pg hp dout q out softmax_lse s
                   (held k (\<lambda>s. ar_k (arrivals s)) s) (held v (\<lambda>s. ar_v (arrivals s)) s)
                   bq bk bv)]"
    by blast
  show "\<exists>m a. filter is_BwdKernel
                   (fst (snd (stripe_flash_attn_backward env pg arrivals dout q k v out softmax_lse hp)) ! s)
                   = [BwdKernel m a] \<and>
                 ba_softmax_lse a = (if pg_rank pg < s then lse_from1 softmax_lse else softmax_lse)"
    by (intro exI conjI, rule b) (simp add: bwd_kernel_call_def bwd_call_def)
qed

text \<open>Rank 0 of a ring of two, step 1: Shifted in both passes.\<close>

theorem backward_mode_witness:
  "hp_causal toy_hp \<and> 1 < pg_world_size (toy_pg 2 0) \<and>
   (\<exists>a a'.
      filter is_BwdKernel
        (fst (snd (stripe_flash_attn_backward toy_env (toy_pg 2 0) toy_arrivals
                (toy_block 4) (toy_block 1) (toy_block 2) (toy_block 3) (toy_block 7)
                toy_lse toy_hp)) ! 1)
        = [BwdKernel Shifted a] \<and>
      filter is_FwdKernel
        (snd (stripe_flash_attn_forward toy_env (toy_pg 2 0)
                (\<lambda>s. (ar_k (toy_arrivals s), ar_v (toy_arrivals s)))
                (toy_block 1) (toy_block 2) (toy_block 3) toy_hp) ! 1)
        = [FwdKernel Shifted a'] \<and>
      ba_q a = fa_q a' \<and> ba_k a = fa_k a' \<and> ba_v a = fa_v a' \<and>
      ba_dout a = rows_from1 (toy_block 4) \<and> ba_q a = rows_from1 (toy_block 1) \<and>
      ba_out a = rows_from1 (toy_block 7) \<and>
      ba_dq a = rows_from1
        (bs_heap (bwd_loop toy_env (toy_pg 2 0) toy_hp toy_arrivals (toy_block 4) (toy_block 1)
                    (toy_block 2) (toy_block 3) (toy_block 7) toy_lse 1) block_dq_buffer) \<and>
      ba_dk a = rows_to_last
        (bs_heap (bwd_loop toy_env (toy_pg 2 0) toy_hp toy_arrivals (toy_block 4) (toy_block 1)
                    (toy_block 2) (toy_block 3) (toy_block 7) toy_lse 1) block_dk_buffer) \<and>
      ba_dv a = rows_to_last
        (bs_heap (bwd_loop toy_env (toy_pg 2 0) toy_hp toy_arrivals (toy_block 4) (toy_block 1)
                    (toy_block 2) (toy_block 3) (toy_block 7) toy_lse 1) block_dv_buffer) \<and>
      ba_softmax_lse a = lse_from1 toy_lse)"
proof -
  have h: "hp_causal toy_hp" "1 < pg_world_size (toy_pg 2 0)"
    by (simp_all add: toy_hp_def toy_pg_def)
  have r: "pg_rank (toy_pg 2 0) < 1" by (simp add: toy_pg_def)
  let ?st = "bwd_loop toy_env (toy_pg 2 0) toy_hp toy_arrivals (toy_block 4) (toy_block 1)
                    (toy_block 2) (toy_block 3) (toy_block 7) toy_lse 1"
  from backward_mode[OF h, of toy_env toy_arrivals "toy_block 4" "toy_block 1" "toy_block 2"
         "toy_block 3" "toy_block 7" toy_lse]
  obtain m a a' where
    "filter is_BwdKernel
        (fst (snd (stripe_flash_attn_backward toy_env (toy_pg 2 0) toy_arrivals
                (toy_block 4) (toy_block 1) (toy_block 2) (toy_block 3) (toy_block 7)
                toy_lse toy_hp)) ! 1)
        = [BwdKernel m a]"
    "filter is_FwdKernel
        (snd (stripe_flash_attn_forward toy_env (toy_pg 2 0)
                (\<lambda>s. (ar_k (toy_arrivals s), ar_v (toy_arrivals s)))
                (toy_block 1) (toy_block 2) (toy_block 3) toy_hp) ! 1)
        = [FwdKernel m a']"
    "m = Shifted"
    "ba_q a = fa_q a'" "ba_k a = fa_k a'" "ba_v a = fa_v a'"
    "ba_dout a = rows_from1 (toy_block 4)" "ba_q a = rows_from1 (toy_block 1)"
    "ba_out a = rows_from1 (toy_block 7)"
    "ba_dq a = rows_from1 (bs_heap ?st block_dq_buffer)"
    "ba_dk a = rows_to_last (bs_heap ?st block_dk_buffer)"
    "ba_dv a = rows_to_last (bs_heap ?st block_dv_buffer)"
    "ba_softmax_lse a = lse_from1 toy_lse"
    using r by auto
  then show ?thesis using h by blast
qed

text \<open>Rank 0 of a ring of two, step 1.\<close>

theorem lse_slice_every_step_witness:
  "hp_causal toy_hp \<and> 1 < pg_world_size (toy_pg 2 0) \<and>
   filter is_LseSlice
     (fst (snd (stripe_flash_attn_backward toy_env (toy_pg 2 0) toy_arrivals
             (toy_block 4) (toy_block 1) (toy_block 2) (toy_block 3) (toy_block 7)
             toy_lse toy_hp)) ! 1) = [LseSlice] \<and>
   (\<exists>m a. filter is_BwdKernel
           (fst (snd (stripe_flash_attn_backward toy_env (toy_pg 2 0) toy_arrivals
                   (toy_block 4) (toy_block 1) (toy_block 2) (toy_block 3) (toy_block 7)
                   toy_lse toy_hp)) ! 1) = [BwdKernel m a] \<and>
         ba_softmax_lse a = lse_from1 toy_lse)"
proof -
  have h: "hp_causal toy_hp" "1 < pg_world_size (toy_pg 2 0)"
    by (simp_all add: toy_hp_def toy_pg_def)
  have r: "pg_rank (toy_pg 2 0) < 1" by (simp add: toy_pg_def)
  note L = lse_slice_every_step[OF h, of toy_env toy_arrivals "toy_block 4" "toy_block 1"
         "toy_block 2" "toy_block 3" "toy_block 7" toy_lse]
  show ?thesis using L r h by simp
qed

subsection \<open>The running pair of the forward loop\<close>

lemma update_some_type:
  "update_out_and_lse env (Some (out, lse)) block_out block_lse slc = (out', lse') \<Longrightarrow>
     same_type out' out \<and> same_type lse' lse"
  by (auto simp: update_out_and_lse_def Let_def same_type_def)

lemma update_none_type:
  "update_out_and_lse env None block_out block_lse None = (out', lse') \<Longrightarrow>
   shape block_out = (b, s, h, d) \<Longrightarrow>
     dtype out' = Float32 \<and> shape out' = (b, s, h, d) \<and>
     dtype lse' = Float32 \<and> shape lse' = (b, s, h, 1)"
  by (auto simp: update_out_and_lse_def Let_def)

lemma fwd_loop_running_type:
  fixes env :: "('a::{plus,times}) env"
  assumes "shape q = (b, s, h, d)"
  shows "\<exists>out lse. fs_running (fwd_loop env pg hp inbox q k v (Suc n)) = Some (out, lse) \<and>
           dtype out = Float32 \<and> shape out = (b, s, h, d) \<and>
           dtype lse = Float32 \<and> shape lse = (b, s, h, 1)"
proof (induction n)
  case 0
  obtain out lse where u: "update_out_and_lse env None
      (fst (call_fwd_kernel env (hp_attn_type hp) (fwd_call hp q k v)))
      (snd (call_fwd_kernel env (hp_attn_type hp) (fwd_call hp q k v))) None = (out, lse)"
    by (metis surj_pair)
  have sh: "shape (fst (call_fwd_kernel env (hp_attn_type hp) (fwd_call hp q k v))) = (b, s, h, d)"
    using assms by (simp add: call_fwd_kernel_def fwd_call_def)
  have "fs_running (fwd_loop env pg hp inbox q k v (Suc 0)) = Some (out, lse)"
    using u by (simp add: fwd_loop_Suc fwd_loop_0 fwd_step_running fwd_init_def fwd_compute_def
                  Let_def case_prod_beta)
  then show ?case using update_none_type[OF u sh] by simp
next
  case (Suc n)
  then obtain out lse where r: "fs_running (fwd_loop env pg hp inbox q k v (Suc n)) = Some (out, lse)"
    and t: "dtype out = Float32" "shape out = (b, s, h, d)"
           "dtype lse = Float32" "shape lse = (b, s, h, 1)" by blast
  obtain out' lse' where r': "fs_running (fwd_loop env pg hp inbox q k v (Suc (Suc n))) = Some (out', lse')"
    using fwd_loop_running_Some[of "Suc (Suc n)"] by blast
  have "same_type out' out \<and> same_type lse' lse"
    using r' r
    by (auto simp: fwd_loop_Suc[of _ _ _ _ _ _ _ "Suc n"] fwd_step_running fwd_compute_def Let_def
             split: prod.splits if_splits dest: update_some_type)
  then show ?case using r' t by (simp add: same_type_def)
qed

lemma dtype_to_dtype [simp]: "dtype (to_dtype env dt t) = dt"
  by (simp add: to_dtype_def)

lemma shape_to_dtype [simp]: "shape (to_dtype env dt t) = shape t"
  by (simp add: to_dtype_def)

lemma forward_result:
  fixes env :: "('a::{plus,times}) env"
  assumes "hp_causal hp" and "0 < pg_world_size pg" and "shape q = (b, s, h, d)"
  shows "\<exists>out lse.
           fs_running (fwd_loop env pg hp inbox q k v (pg_world_size pg)) = Some (out, lse) \<and>
           dtype out = Float32 \<and> shape out = (b, s, h, d) \<and>
           fst (stripe_flash_attn_forward env pg inbox q k v hp) =
             Inr (to_dtype env (dtype q) out,
                  T3 \<lparr>dtype = Float32, shape = (b, h, s),
                      elems = (\<lambda>(b', h', s'). elems lse (b', s', h', 0))\<rparr>)"
proof -
  obtain n where n: "pg_world_size pg = Suc n" using assms(2) by (cases "pg_world_size pg") auto
  from fwd_loop_running_type[OF assms(3), of env pg hp inbox k v n]
  obtain out lse where r: "fs_running (fwd_loop env pg hp inbox q k v (Suc n)) = Some (out, lse)"
    and t: "dtype out = Float32" "shape out = (b, s, h, d)"
           "dtype lse = Float32" "shape lse = (b, s, h, 1)" by blast
  have "fst (stripe_flash_attn_forward env pg inbox q k v hp) =
             Inr (to_dtype env (dtype q) out,
                  T3 \<lparr>dtype = Float32, shape = (b, h, s),
                      elems = (\<lambda>(b', h', s'). elems lse (b', s', h', 0))\<rparr>)"
    using assms(1) r t by (simp add: stripe_flash_attn_forward_def n squeeze_last_def)
  then show ?thesis using r t n by simp
qed

lemma backward_result:
  fixes env :: "('a::plus) env"
  assumes "hp_causal hp" and "0 < pg_world_size pg"
  shows "\<exists>a c d.
           bs_dq (bwd_final env pg hp arrivals dout q k v out softmax_lse) = Some a \<and>
           bs_next_dk (bwd_final env pg hp arrivals dout q k v out softmax_lse) = Some c \<and>
           bs_next_dv (bwd_final env pg hp arrivals dout q k v out softmax_lse) = Some d \<and>
           fst (stripe_flash_attn_backward env pg arrivals dout q k v out softmax_lse hp) =
             Inr (to_dtype env (dtype q)
                    (bs_heap (bwd_final env pg hp arrivals dout q k v out softmax_lse) a),
                  to_dtype env (dtype q)
                    (bs_heap (bwd_final env pg hp arrivals dout q k v out softmax_lse) c),
                  to_dtype env (dtype q)
                    (bs_heap (bwd_final env pg hp arrivals dout q k v out softmax_lse) d)) \<and>
           dtype (bs_heap (bwd_final env pg hp arrivals dout q k v out softmax_lse) a) = Float32 \<and>
           wide (dtype (bs_heap (bwd_final env pg hp arrivals dout q k v out softmax_lse) c)) \<and>
           wide (dtype (bs_heap (bwd_final env pg hp arrivals dout q k v out softmax_lse) d))"
proof -
  let ?P = "pg_world_size pg"
  let ?st = "bwd_loop env pg hp arrivals dout q k v out softmax_lse ?P"
  have ok: "bwd_ok pg arrivals q k v ?P ?st"
    using bwd_loop_ok[of ?P pg arrivals q k v env hp dout out softmax_lse] by simp
  note I = ok[unfolded bwd_ok_def]
  from I assms(2) obtain a b c where p: "bs_dq ?st = Some a" "bs_next_dk ?st = Some b"
    "bs_next_dv ?st = Some c" by auto
  have ta: "dtype (bs_heap ?st a) = Float32" using I p by simp
  have tb: "wide (dtype (bs_heap ?st b))" "wide (dtype (bs_heap ?st c))"
    using I p by (simp_all add: ptr_ok_def)
  define st' where "st' = wait_d_kv (ar_dk (arrivals ?P)) (ar_dv (arrivals ?P)) ?st"
  have fin: "bwd_final env pg hp arrivals dout q k v out softmax_lse = st'"
    by (simp add: bwd_final_def st'_def Let_def)
  note W = wait_d_kv_facts[of "ar_dk (arrivals ?P)" "ar_dv (arrivals ?P)" ?st, folded st'_def]
  have t': "dtype (bs_heap st' a) = Float32" "wide (dtype (bs_heap st' b))"
    "wide (dtype (bs_heap st' c))"
    using W(16)[of a] W(16)[of b] W(16)[of c] ta tb by (simp_all add: same_type_def)
  have p': "bs_dq st' = Some a" "bs_next_dk st' = Some b" "bs_next_dv st' = Some c"
    using p W(7,10,11) by simp_all
  have "fst (stripe_flash_attn_backward env pg arrivals dout q k v out softmax_lse hp) =
          Inr (to_dtype env (dtype q) (bs_heap st' a), to_dtype env (dtype q) (bs_heap st' b),
               to_dtype env (dtype q) (bs_heap st' c))"
    using assms(1) I p W(7,10,11)
    by (simp add: stripe_flash_attn_backward_def Let_def st'_def[symmetric])
  then show ?thesis unfolding fin using t' p' by blast
qed

subsection \<open>C6: the results are cast to the dtype of \<open>q\<close>\<close>

text \<open>
  Claim C6. In a ring of at least one rank, \<^verbatim>\<open>stripe_flash_attn_forward\<close> returns the
  32-bit running output of the loop cast to the dtype of \<open>q\<close>, and the running
  log-sum-exp of layout \<open>(batch, seq, heads, 1)\<close> without its last axis and with axes 1
  and 2 transposed, that is in layout \<open>(batch, heads, seq)\<close>;
  \<^verbatim>\<open>stripe_flash_attn_backward\<close> returns three tensors of the dtype of \<open>q\<close>, which are
  the casts of the accumulators that the loop and the last wait leave: the tensor that
  \<^verbatim>\<open>dq\<close> names, of 32 bits, and the tensors that \<^verbatim>\<open>next_dk\<close> and \<^verbatim>\<open>next_dv\<close> name, of
  at least 32 bits.
\<close>

theorem results_cast_to_input_dtype:
  fixes env :: "('a::{plus,times}) env"
  assumes "hp_causal hp" and "0 < pg_world_size pg" and "shape q = (b, s, h, d)"
  shows "\<exists>out_acc lse_acc dq_acc dk_acc dv_acc.
           fs_running (fwd_loop env pg hp inbox q k v (pg_world_size pg)) = Some (out_acc, lse_acc) \<and>
           dtype out_acc = Float32 \<and>
           fst (stripe_flash_attn_forward env pg inbox q k v hp) =
             Inr (to_dtype env (dtype q) out_acc,
                  T3 \<lparr>dtype = Float32, shape = (b, h, s),
                      elems = (\<lambda>(b', h', s'). elems lse_acc (b', s', h', 0))\<rparr>) \<and>
           dtype (to_dtype env (dtype q) out_acc) = dtype q \<and>
           shape (to_dtype env (dtype q) out_acc) = shape q \<and>
           bs_dq (bwd_final env pg hp arrivals dout q k v out softmax_lse) = Some dq_acc \<and>
           bs_next_dk (bwd_final env pg hp arrivals dout q k v out softmax_lse) = Some dk_acc \<and>
           bs_next_dv (bwd_final env pg hp arrivals dout q k v out softmax_lse) = Some dv_acc \<and>
           fst (stripe_flash_attn_backward env pg arrivals dout q k v out softmax_lse hp) =
             Inr (to_dtype env (dtype q)
                    (bs_heap (bwd_final env pg hp arrivals dout q k v out softmax_lse) dq_acc),
                  to_dtype env (dtype q)
                    (bs_heap (bwd_final env pg hp arrivals dout q k v out softmax_lse) dk_acc),
                  to_dtype env (dtype q)
                    (bs_heap (bwd_final env pg hp arrivals dout q k v out softmax_lse) dv_acc)) \<and>
           dtype (bs_heap (bwd_final env pg hp arrivals dout q k v out softmax_lse) dq_acc)
             = Float32 \<and>
           wide (dtype (bs_heap (bwd_final env pg hp arrivals dout q k v out softmax_lse) dk_acc)) \<and>
           wide (dtype (bs_heap (bwd_final env pg hp arrivals dout q k v out softmax_lse) dv_acc)) \<and>
           dtype (to_dtype env (dtype q)
                    (bs_heap (bwd_final env pg hp arrivals dout q k v out softmax_lse) dq_acc))
             = dtype q \<and>
           dtype (to_dtype env (dtype q)
                    (bs_heap (bwd_final env pg hp arrivals dout q k v out softmax_lse) dk_acc))
             = dtype q \<and>
           dtype (to_dtype env (dtype q)
                    (bs_heap (bwd_final env pg hp arrivals dout q k v out softmax_lse) dv_acc))
             = dtype q"
proof -
  let ?st = "bwd_final env pg hp arrivals dout q k v out softmax_lse"
  from forward_result[OF assms, of env inbox k v]
  obtain out_acc lse_acc where
    f: "fs_running (fwd_loop env pg hp inbox q k v (pg_world_size pg)) = Some (out_acc, lse_acc)"
       "dtype out_acc = Float32" "shape out_acc = (b, s, h, d)"
       "fst (stripe_flash_attn_forward env pg inbox q k v hp) =
             Inr (to_dtype env (dtype q) out_acc,
                  T3 \<lparr>dtype = Float32, shape = (b, h, s),
                      elems = (\<lambda>(b', h', s'). elems lse_acc (b', s', h', 0))\<rparr>)"
    by blast
  from backward_result[OF assms(1,2), of env arrivals dout q k v out softmax_lse]
  obtain dq_acc dk_acc dv_acc where
    g: "bs_dq ?st = Some dq_acc" "bs_next_dk ?st = Some dk_acc" "bs_next_dv ?st = Some dv_acc"
       "fst (stripe_flash_attn_backward env pg arrivals dout q k v out softmax_lse hp) =
             Inr (to_dtype env (dtype q) (bs_heap ?st dq_acc),
                  to_dtype env (dtype q) (bs_heap ?st dk_acc),
                  to_dtype env (dtype q) (bs_heap ?st dv_acc))"
       "dtype (bs_heap ?st dq_acc) = Float32" "wide (dtype (bs_heap ?st dk_acc))"
       "wide (dtype (bs_heap ?st dv_acc))"
    by blast
  show ?thesis
    apply (rule exI[of _ out_acc], rule exI[of _ lse_acc])
    apply (rule exI[of _ dq_acc], rule exI[of _ dk_acc], rule exI[of _ dv_acc])
    using f g assms(3) by simp
qed

text \<open>A ring of two, bfloat16 inputs.\<close>

theorem results_cast_to_input_dtype_witness:
  "hp_causal toy_hp \<and> 0 < pg_world_size (toy_pg 2 0) \<and> shape (toy_block 1) = (1, 2, 1, 1) \<and>
   (\<exists>out_res lse_res dq_acc dk_acc dv_acc.
      fst (stripe_flash_attn_forward toy_env (toy_pg 2 0) toy_inbox
             (toy_block 1) (toy_block 2) (toy_block 3) toy_hp) = Inr (out_res, T3 lse_res) \<and>
      dtype out_res = BFloat16 \<and> shape out_res = (1, 2, 1, 1) \<and> shape lse_res = (1, 1, 2) \<and>
      bs_dq (bwd_final toy_env (toy_pg 2 0) toy_hp toy_arrivals (toy_block 4) (toy_block 1)
               (toy_block 2) (toy_block 3) (toy_block 7) toy_lse) = Some dq_acc \<and>
      bs_next_dk (bwd_final toy_env (toy_pg 2 0) toy_hp toy_arrivals (toy_block 4) (toy_block 1)
               (toy_block 2) (toy_block 3) (toy_block 7) toy_lse) = Some dk_acc \<and>
      bs_next_dv (bwd_final toy_env (toy_pg 2 0) toy_hp toy_arrivals (toy_block 4) (toy_block 1)
               (toy_block 2) (toy_block 3) (toy_block 7) toy_lse) = Some dv_acc \<and>
      fst (stripe_flash_attn_backward toy_env (toy_pg 2 0) toy_arrivals
             (toy_block 4) (toy_block 1) (toy_block 2) (toy_block 3) (toy_block 7)
             toy_lse toy_hp) =
        Inr (to_dtype toy_env BFloat16
               (bs_heap (bwd_final toy_env (toy_pg 2 0) toy_hp toy_arrivals (toy_block 4)
                           (toy_block 1) (toy_block 2) (toy_block 3) (toy_block 7) toy_lse) dq_acc),
             to_dtype toy_env BFloat16
               (bs_heap (bwd_final toy_env (toy_pg 2 0) toy_hp toy_arrivals (toy_block 4)
                           (toy_block 1) (toy_block 2) (toy_block 3) (toy_block 7) toy_lse) dk_acc),
             to_dtype toy_env BFloat16
               (bs_heap (bwd_final toy_env (toy_pg 2 0) toy_hp toy_arrivals (toy_block 4)
                           (toy_block 1) (toy_block 2) (toy_block 3) (toy_block 7) toy_lse) dv_acc)))"
proof -
  have h: "hp_causal toy_hp" "0 < pg_world_size (toy_pg 2 0)" "shape (toy_block 1) = (1, 2, 1, 1)"
    by (simp_all add: toy_hp_def toy_pg_def toy_block_def)
  have d: "dtype (toy_block 1) = BFloat16" by (simp add: toy_block_def)
  from results_cast_to_input_dtype[OF h, of toy_env toy_inbox "toy_block 2" "toy_block 3"
         toy_arrivals "toy_block 4" "toy_block 7" toy_lse]
  show ?thesis using h d by auto
qed

subsection \<open>C7: configuration errors come before any ring step\<close>

lemma autograd_forward_fails:
  fixes env :: "('a::{plus,times}) env"
  assumes "\<not> causal \<or> alibi_slopes \<noteq> None"
  shows "StripeFlashAttnFunc_forward env world inbox q k v dropout_p softmax_scale causal window_size
          softcap alibi_slopes deterministic return_softmax grp attn_type =
        (Inl (if softmax_scale = None \<and> head_dim q = 0 then ZeroDivisionError
              else if alibi_slopes \<noteq> None then AssertionError []
              else AssertionError forward_causal_message), [])"
  using assms
  by (auto simp: stripe_flash_attn_forward_def StripeFlashAttnFunc_forward_def
        default_softmax_scale_def split: option.splits)

text \<open>
  Claim C7, as stated, at a query block whose head dimension is 0, no
  \<^verbatim>\<open>softmax_scale\<close> and \<^verbatim>\<open>alibi_slopes\<close> given: \<^verbatim>\<open>StripeFlashAttnFunc.forward\<close> fails
  before any ring step, but with \<^verbatim>\<open>ZeroDivisionError\<close> from the default scale of line
  217, not with an assertion.
\<close>

theorem configuration_errors_counterexample:
  "StripeFlashAttnFunc_forward toy_env (toy_pg 2 0) toy_inbox toy_q0 (toy_block 2) (toy_block 3)
     0 None True (- 1, - 1) 0 (Some toy_alibi) False False None FA
     = (Inl ZeroDivisionError, []) \<and>
   \<not> is_AssertionError ZeroDivisionError"
  by (simp add: StripeFlashAttnFunc_forward_def default_softmax_scale_def head_dim_def toy_q0_def)

text \<open>
  Claim C7, amended. A call of \<^verbatim>\<open>stripe_flash_attn_forward\<close> or
  \<^verbatim>\<open>stripe_flash_attn_backward\<close> with \<^verbatim>\<open>causal\<close> false raises the assertion of its first
  statement; a call of \<^verbatim>\<open>StripeFlashAttnFunc.forward\<close> with \<^verbatim>\<open>causal\<close> false or with
  \<^verbatim>\<open>alibi_slopes\<close> given raises \<^verbatim>\<open>ZeroDivisionError\<close> when no \<^verbatim>\<open>softmax_scale\<close> is given
  and the head dimension of \<open>q\<close> is 0, and otherwise an assertion (the one on
  \<^verbatim>\<open>alibi_slopes\<close> first). In every case the log is empty: no transfer, no kernel call,
  and no context is returned.
\<close>

theorem configuration_errors:
  fixes env :: "('a::{plus,times}) env"
  shows
  "(\<not> hp_causal hp \<longrightarrow>
      stripe_flash_attn_forward env pg inbox q k v hp =
        (Inl (AssertionError forward_causal_message), []) \<and>
      stripe_flash_attn_backward env pg arrivals dout q k v out softmax_lse hp =
        (Inl (AssertionError backward_causal_message), [], [])) \<and>
   (\<not> causal \<or> alibi_slopes \<noteq> None \<longrightarrow>
      StripeFlashAttnFunc_forward env world inbox q k v dropout_p softmax_scale causal window_size
          softcap alibi_slopes deterministic return_softmax grp attn_type =
        (Inl (if softmax_scale = None \<and> head_dim q = 0 then ZeroDivisionError
              else if alibi_slopes \<noteq> None then AssertionError []
              else AssertionError forward_causal_message), []))"
  by (simp add: stripe_flash_attn_forward_def stripe_flash_attn_backward_def
        autograd_forward_fails)

text \<open>Non-causal calls of the three functions, on the toy blocks.\<close>

theorem configuration_errors_witness:
  "\<not> hp_causal (toy_hp\<lparr>hp_causal := False\<rparr>) \<and>
   stripe_flash_attn_forward toy_env (toy_pg 2 0) toy_inbox (toy_block 1) (toy_block 2)
       (toy_block 3) (toy_hp\<lparr>hp_causal := False\<rparr>) =
     (Inl (AssertionError forward_causal_message), []) \<and>
   stripe_flash_attn_backward toy_env (toy_pg 2 0) toy_arrivals (toy_block 4) (toy_block 1)
       (toy_block 2) (toy_block 3) (toy_block 7) toy_lse (toy_hp\<lparr>hp_causal := False\<rparr>) =
     (Inl (AssertionError backward_causal_message), [], []) \<and>
   StripeFlashAttnFunc_forward toy_env (toy_pg 2 0) toy_inbox (toy_block 1) (toy_block 2)
       (toy_block 3) 0 None False (- 1, - 1) 0 (Some toy_alibi) False False None FA =
     (Inl (AssertionError []), [])"
  using configuration_errors[of "toy_hp\<lparr>hp_causal := False\<rparr>" toy_env "toy_pg 2 0" toy_inbox
      "toy_block 1" "toy_block 2" "toy_block 3" toy_arrivals "toy_block 4" "toy_block 7" toy_lse
      False "Some toy_alibi" "toy_pg 2 0" 0 None "(- 1, - 1)" 0 False False None FA]
  by (simp add: toy_hp_def head_dim_def toy_block_def)

subsection \<open>C9: the defaults of the entry points never succeed\<close>

text \<open>
  Claim C9, as stated, at a call of \<^verbatim>\<open>stripe_flash_attn_func\<close> that passes
  \<^verbatim>\<open>alibi_slopes\<close> and leaves \<^verbatim>\<open>causal\<close> to its default: the call fails the assertion of
  line 219 on \<^verbatim>\<open>alibi_slopes\<close>, which has no message; the assertion on \<^verbatim>\<open>causal\<close> is
  never reached.
\<close>

theorem defaults_fail_counterexample:
  "stripe_flash_attn_func toy_env (toy_pg 2 0) toy_inbox (toy_block 1) (toy_block 2) (toy_block 3)
     (toy_kwargs\<lparr>kw_alibi_slopes := Some toy_alibi\<rparr>)
     = (Inl (AssertionError []), []) \<and>
   AssertionError [] \<noteq> AssertionError forward_causal_message"
  by (simp add: stripe_flash_attn_func_def apply_func_def StripeFlashAttnFunc_forward_def
        default_softmax_scale_def head_dim_def toy_block_def toy_kwargs_def default_def
        forward_causal_message_def)

text \<open>
  Claim C9, amended. A call of one of the three entry points that does not pass
  \<^verbatim>\<open>causal=True\<close> never succeeds and runs no ring step. It raises the assertion on
  \<^verbatim>\<open>causal\<close> unless something fails before: \<^verbatim>\<open>IndexError\<close> when axis 2 of a packed
  tensor is shorter than 3 (\<^verbatim>\<open>qkv\<close>) or 2 (\<^verbatim>\<open>kv\<close>), \<^verbatim>\<open>ZeroDivisionError\<close> when no
  \<^verbatim>\<open>softmax_scale\<close> is passed and the head dimension is 0, the assertion on
  \<^verbatim>\<open>alibi_slopes\<close> when they are passed.
\<close>

theorem defaults_fail:
  fixes env :: "('a::{plus,times}) env"
  assumes "kw_causal kw \<noteq> Some True"
  shows "stripe_flash_attn_func env world inbox q k v kw =
           (Inl (default_call_error kw (head_dim q)), []) \<and>
         stripe_flash_attn_qkvpacked_func env world inbox qkv kw =
           (Inl (if packed_size qkv < 3 then IndexError
                 else default_call_error kw (packed_head_dim qkv)), []) \<and>
         stripe_flash_attn_kvpacked_func env world inbox q kv kw =
           (Inl (if packed_size kv < 2 then IndexError
                 else default_call_error kw (head_dim q)), [])"
proof -
  have c: "\<not> default False (kw_causal kw)"
    using assms by (cases "kw_causal kw") (simp_all add: default_def)
  have a: "apply_func env world inbox q k v kw = (Inl (default_call_error kw (head_dim q)), [])"
    for q k v :: "'a tensor4"
    using c by (simp add: apply_func_def default_call_error_def autograd_forward_fails)
  show ?thesis
    by (auto simp: stripe_flash_attn_func_def stripe_flash_attn_qkvpacked_func_def
          stripe_flash_attn_kvpacked_func_def a select_2_def packed_size_def packed_head_dim_def
          head_dim_def split: prod.splits sum.splits)
qed

text \<open>The call with no keyword argument at all.\<close>

theorem defaults_fail_witness:
  "kw_causal toy_kwargs \<noteq> Some True \<and>
   stripe_flash_attn_func toy_env (toy_pg 2 0) toy_inbox (toy_block 1) (toy_block 2) (toy_block 3)
     toy_kwargs = (Inl (AssertionError forward_causal_message), [])"
  using defaults_fail[of toy_kwargs toy_env "toy_pg 2 0" toy_inbox "toy_block 1" "toy_block 2"
          "toy_block 3"]
  by (simp add: toy_kwargs_def default_call_error_def head_dim_def toy_block_def)

subsection \<open>C10: the forward pass ignores \<^verbatim>\<open>deterministic\<close>\<close>

lemma autograd_forward_Inr:
  fixes env :: "('a::{plus,times}) env"
  assumes "fst (StripeFlashAttnFunc_forward env world inbox q k v dropout_p softmax_scale causal
                  window_size softcap alibi_slopes deterministic return_softmax grp attn_type)
           = Inr (c, r)"
  shows "causal \<and> alibi_slopes = None \<and> 0 < pg_world_size (resolve_group world grp) \<and>
         ctx_deterministic c = deterministic \<and> ctx_causal c = True \<and> ctx_group c = grp \<and>
         (\<exists>out lse. ctx_saved_tensors c = (q, k, v, out, T3 lse))"
proof -
  let ?pg = "resolve_group world grp"
  from assms obtain scale where
    sc: "(case softmax_scale of None \<Rightarrow> default_softmax_scale q | Some x \<Rightarrow> Inr x) = Inr scale"
    by (cases "case softmax_scale of None \<Rightarrow> default_softmax_scale q | Some x \<Rightarrow> Inr x")
       (simp_all add: StripeFlashAttnFunc_forward_def)
  have al: "alibi_slopes = None"
    using assms sc by (cases alibi_slopes) (simp_all add: StripeFlashAttnFunc_forward_def)
  let ?hp = "\<lparr>hp_softmax_scale = scale, hp_dropout_p = dropout_p, hp_causal = causal,
              hp_window_size = window_size, hp_softcap = softcap,
              hp_alibi_slopes = alibi_slopes, hp_deterministic = False,
              hp_attn_type = attn_type\<rparr>"
  obtain res steps where f: "stripe_flash_attn_forward env ?pg inbox q k v ?hp = (res, steps)"
    by (metis surj_pair)
  from assms sc al f obtain out lse where res: "res = Inr (out, lse)"
    and c: "c = \<lparr>ctx_saved_tensors = (q, k, v, out, lse),
                 ctx_dropout_p = dropout_p, ctx_softmax_scale = scale, ctx_causal = causal,
                 ctx_window_size = window_size, ctx_softcap = softcap,
                 ctx_alibi_slopes = alibi_slopes, ctx_deterministic = deterministic,
                 ctx_group = grp, ctx_attn_type = attn_type\<rparr>"
    by (cases res) (auto simp: StripeFlashAttnFunc_forward_def)
  have ca: "causal" using f res by (auto simp: stripe_flash_attn_forward_def split: if_splits)
  have P: "0 < pg_world_size ?pg"
  proof (rule ccontr)
    assume "\<not> 0 < pg_world_size ?pg"
    then have "pg_world_size ?pg = 0" by simp
    then show False using f res ca
      by (simp add: stripe_flash_attn_forward_def fwd_loop_0 fwd_init_def)
  qed
  obtain b s h d where sh: "shape q = (b, s, h, d)" by (metis prod_cases4)
  have "hp_causal ?hp" using ca by simp
  from forward_result[OF this P sh, of env inbox k v] f res
  obtain l where "lse = T3 l" by auto
  then show ?thesis using ca al P c by simp
qed

text \<open>
  Claim C10. Two calls of \<^verbatim>\<open>StripeFlashAttnFunc.forward\<close> that differ only in
  \<^verbatim>\<open>deterministic\<close> fail alike or return the same output and log-sum-exp, and do the
  same transfers and kernel calls. When the call succeeds, the context holds the
  caller's value, and every kernel call of \<^verbatim>\<open>StripeFlashAttnFunc.backward\<close> on this
  context gets it.
\<close>

theorem forward_ignores_deterministic:
  fixes env :: "('a::{plus,times}) env"
  shows
  "map_sum id snd (fst (StripeFlashAttnFunc_forward env world inbox q k v dropout_p softmax_scale
        causal window_size softcap alibi_slopes d1 return_softmax grp attn_type)) =
   map_sum id snd (fst (StripeFlashAttnFunc_forward env world inbox q k v dropout_p softmax_scale
        causal window_size softcap alibi_slopes d2 return_softmax grp attn_type)) \<and>
   snd (StripeFlashAttnFunc_forward env world inbox q k v dropout_p softmax_scale
        causal window_size softcap alibi_slopes d1 return_softmax grp attn_type) =
   snd (StripeFlashAttnFunc_forward env world inbox q k v dropout_p softmax_scale
        causal window_size softcap alibi_slopes d2 return_softmax grp attn_type) \<and>
   (\<forall>c r. fst (StripeFlashAttnFunc_forward env world inbox q k v dropout_p softmax_scale
                  causal window_size softcap alibi_slopes d1 return_softmax grp attn_type)
             = Inr (c, r) \<longrightarrow>
      ctx_deterministic c = d1 \<and>
      (\<forall>s < pg_world_size (resolve_group world grp).
         \<exists>m a. filter is_BwdKernel
                  (fst (snd (StripeFlashAttnFunc_backward env world arrivals c dout)) ! s)
                  = [BwdKernel m a] \<and>
                ba_deterministic a = d1))"
proof (intro conjI allI impI)
  show "map_sum id snd (fst (StripeFlashAttnFunc_forward env world inbox q k v dropout_p softmax_scale
        causal window_size softcap alibi_slopes d1 return_softmax grp attn_type)) =
   map_sum id snd (fst (StripeFlashAttnFunc_forward env world inbox q k v dropout_p softmax_scale
        causal window_size softcap alibi_slopes d2 return_softmax grp attn_type))"
    by (simp add: StripeFlashAttnFunc_forward_def split: sum.splits prod.splits option.splits)
  show "snd (StripeFlashAttnFunc_forward env world inbox q k v dropout_p softmax_scale
        causal window_size softcap alibi_slopes d1 return_softmax grp attn_type) =
   snd (StripeFlashAttnFunc_forward env world inbox q k v dropout_p softmax_scale
        causal window_size softcap alibi_slopes d2 return_softmax grp attn_type)"
    by (simp add: StripeFlashAttnFunc_forward_def split: sum.splits prod.splits option.splits)
next
  fix c r
  assume a: "fst (StripeFlashAttnFunc_forward env world inbox q k v dropout_p softmax_scale
                  causal window_size softcap alibi_slopes d1 return_softmax grp attn_type)
             = Inr (c, r)"
  note A = autograd_forward_Inr[OF a]
  show "ctx_deterministic c = d1" using A by simp
  fix s assume s: "s < pg_world_size (resolve_group world grp)"
  from A obtain out lse where sv: "ctx_saved_tensors c = (q, k, v, out, T3 lse)" by blast
  let ?hp = "\<lparr>hp_softmax_scale = ctx_softmax_scale c, hp_dropout_p = ctx_dropout_p c,
             hp_causal = ctx_causal c, hp_window_size = ctx_window_size c,
             hp_softcap = ctx_softcap c, hp_alibi_slopes = ctx_alibi_slopes c,
             hp_deterministic = ctx_deterministic c, hp_attn_type = ctx_attn_type c\<rparr>"
  have e: "StripeFlashAttnFunc_backward env world arrivals c dout =
          stripe_flash_attn_backward env (resolve_group world grp) arrivals dout q k v out lse ?hp"
    using sv A by (simp add: StripeFlashAttnFunc_backward_def)
  have hc: "hp_causal ?hp" using A by simp
  from bwd_logged_filters(3)[OF bwd_log(2)[OF hc s, where env=env and arrivals=arrivals and dout=dout
      and q=q and k=k and v=v and out=out and softmax_lse=lse]]
  obtain bq bk bv where b: "filter is_BwdKernel
        (fst (snd (stripe_flash_attn_backward env (resolve_group world grp) arrivals dout q k v out
                     lse ?hp)) ! s) =
        [BwdKernel (if s \<le> pg_rank (resolve_group world grp) then Full else Shifted)
           (bwd_kernel_call (resolve_group world grp) ?hp dout q out lse s
              (held k (\<lambda>s. ar_k (arrivals s)) s) (held v (\<lambda>s. ar_v (arrivals s)) s) bq bk bv)]"
    by blast
  show "\<exists>m a. filter is_BwdKernel
                  (fst (snd (StripeFlashAttnFunc_backward env world arrivals c dout)) ! s)
                  = [BwdKernel m a] \<and>
                ba_deterministic a = d1"
    unfolding e
    by (intro exI conjI, rule b) (use A in \<open>simp add: bwd_kernel_call_def bwd_call_def\<close>)
qed

text \<open>A successful call on the toy ring, with \<^verbatim>\<open>deterministic=True\<close>.\<close>

theorem forward_ignores_deterministic_witness:
  "\<exists>c r. fst (StripeFlashAttnFunc_forward toy_env (toy_pg 2 0) toy_inbox (toy_block 1)
                 (toy_block 2) (toy_block 3) 0 (Some 1) True (- 1, - 1) 0 None True False None FA)
            = Inr (c, r) \<and>
          ctx_deterministic c = True \<and>
          (\<exists>m a. filter is_BwdKernel
                   (fst (snd (StripeFlashAttnFunc_backward toy_env (toy_pg 2 0) toy_arrivals c
                                (toy_block 4))) ! 1)
                   = [BwdKernel m a] \<and>
                 ba_deterministic a = True)"
proof -
  let ?F = "StripeFlashAttnFunc_forward toy_env (toy_pg 2 0) toy_inbox (toy_block 1)
                 (toy_block 2) (toy_block 3) 0 (Some 1) True (- 1, - 1) 0 None True False None FA"
  let ?hp = "\<lparr>hp_softmax_scale = 1, hp_dropout_p = 0, hp_causal = True,
              hp_window_size = (- 1, - 1), hp_softcap = 0,
              hp_alibi_slopes = None, hp_deterministic = False,
              hp_attn_type = FA\<rparr> :: int hparams"
  have P: "0 < pg_world_size (toy_pg 2 0)" "1 < pg_world_size (resolve_group (toy_pg 2 0) None)"
    by (simp_all add: toy_pg_def resolve_group_def)
  have sh: "shape (toy_block 1) = (1, 2, 1, 1)" by (simp add: toy_block_def)
  have hc: "hp_causal ?hp" by simp
  from forward_result[OF hc P(1) sh, of toy_env toy_inbox "toy_block 2" "toy_block 3"]
  obtain res where "fst (stripe_flash_attn_forward toy_env (toy_pg 2 0) toy_inbox (toy_block 1)
      (toy_block 2) (toy_block 3) ?hp) = Inr res" by blast
  then obtain c r where cr: "fst ?F = Inr (c, r)"
    by (cases "stripe_flash_attn_forward toy_env (toy_pg 2 0) toy_inbox (toy_block 1)
      (toy_block 2) (toy_block 3) ?hp"; cases res)
       (simp add: StripeFlashAttnFunc_forward_def resolve_group_def)
  note T = forward_ignores_deterministic[of toy_env "toy_pg 2 0" toy_inbox "toy_block 1"
      "toy_block 2" "toy_block 3" 0 "Some 1" True "(- 1, - 1)" 0 None True False None FA True
      toy_arrivals "toy_block 4"]
  from T cr have "ctx_deterministic c = True \<and>
      (\<forall>s < pg_world_size (resolve_group (toy_pg 2 0) None).
         \<exists>m a. filter is_BwdKernel
                  (fst (snd (StripeFlashAttnFunc_backward toy_env (toy_pg 2 0) toy_arrivals c
                               (toy_block 4))) ! s)
                  = [BwdKernel m a] \<and>
                ba_deterministic a = True)"
    by blast
  then show ?thesis using cr P(2) by blast
qed

subsection \<open>The backward loop: what the accumulators hold\<close>


lemma filled_add [simp]:
  "filled (add_inplace x y) e = filled x e"
  "filled (add_rows_from1 x y) e = filled x e"
  by (simp_all add: filled_def add_inplace_def add_rows_from1_def)

lemma filled_filled [simp]: "filled (filled x e) e' = filled x e'"
  by (simp add: filled_def)












subsection \<open>The gradient ring\<close>

lemma peer_simps [simp]: "pg_world_size (peer P r) = P" "pg_rank (peer P r) = r"
  by (simp_all add: peer_def)
















subsection \<open>C3: the gradients of K and V go round the ring\<close>





end
